theory Spec2Isabelle
  imports Main "HOL-Library.Word"
begin

section \<open>The coroutine runtime of coroutine.h (ucontext backend)\<close>

text \<open>
  The header keeps one thread-local \<open>Ordinator\<close>: a vector of shared pointers to
  \<open>Routine\<close> objects, a free-list of identifiers, the identifier of the running routine
  and the saved host context. The model below follows the \<open>#else\<close> branch (ucontext);
  the fiber branch for MSVC is not modelled.

  \<^item> \<open>routine_t\<close> is \<open>unsigned int\<close>: a 32-bit word, so \<open>id - 1\<close> wraps for \<open>id = 0\<close>.
    The source's variable \<open>id\<close> is written \<open>rid\<close> (\<open>id\<close> is HOL's identity function).
  \<^item> A \<open>std::shared_ptr<Routine>\<close> is an address into a store of routine objects
    (\<open>heap\<close>); \<open>nullptr\<close> is \<open>None\<close>. Objects are never removed from the store, so a
    pointer held in a local of \<open>entry\<close> stays valid after \<open>destroy\<close>, as it does with the
    shared pointer.
  \<^item> \<open>assert\<close> is kept: a failed assertion is the error \<open>AssertFailed\<close>.
  \<^item> \<open>routines[i]\<close> is an unchecked \<open>std::vector\<close> access. Inside the table it is the
    table entry. Outside the table the program does not determine what it does: the model
    takes the result from \<open>beyond\<close>, the memory that follows the table, which for each
    index holds either a pointer value or a fault (\<open>Fault\<close>); a write outside the table
    goes to \<open>beyond\<close> too. \<open>beyond\<close> is not a member of the struct.
  \<^item> A saved \<open>ucontext_t\<close> is the rest of the computation: the remaining program of
    the body together with the locals of the \<open>entry\<close> frame below it.
  \<^item> \<open>Channel\<close> objects are named by numbers. The state carries a \<open>trace\<close> of the
    values pushed, popped and cleared; it is not data of the program and no operation
    reads it: it is there to state properties of whole runs.
  \<^item> \<open>std::async\<close> and \<open>std::future\<close> are library code, modelled from their
    documentation: \<open>std::async(std::launch::async, f, x)\<close> starts \<open>f(x)\<close> once on a thread
    of its own and returns a future; \<open>wait_for(0)\<close> answers \<open>timeout\<close> while the thread has
    not finished and \<open>ready\<close> afterwards; \<open>get()\<close> returns the value of \<open>f(x)\<close> or rethrows
    what it threw. How many polls time out is the scheduler's choice: it is a number given
    with the call. The futures live in the list \<open>futures\<close> of the state.
\<close>

type_synonym routine_t = "32 word"
type_synonym chan = nat
type_synonym addr = nat

datatype error = AssertFailed | Fault | NullDeref | Uninitialised | BadPointer

text \<open>What a call run by \<open>await\<close> produces: a value, or an exception (numbered).\<close>

datatype 'v outcome = Value 'v | Thrown nat

subsection \<open>Code that runs on the runtime\<close>

text \<open>
  A body handed to \<open>create\<close> (a \<open>std::function<void()>\<close>), and the host code itself, is a
  tree of calls into the public interface; each node carries the code that runs after the
  call returns, which may depend on the value returned. \<open>PopLoop\<close> is the program point
  inside \<open>Channel::pop\<close> at the head of its \<open>while\<close> loop. \<open>Await f x n k\<close> is
  \<open>await(f, x)\<close> where the first \<open>n\<close> polls of the future time out; \<open>AwaitPoll i k\<close> is the
  program point inside \<open>await\<close> before a poll of future \<open>i\<close>.
\<close>

datatype 'v prog =
    Return
  | Create "'v prog" "routine_t \<Rightarrow> 'v prog"
  | Destroy routine_t "'v prog"
  | Resume routine_t "int \<Rightarrow> 'v prog"
  | Yield "'v prog"
  | Current "routine_t \<Rightarrow> 'v prog"
  | Consume chan routine_t "'v prog"
  | Push chan 'v "'v prog"
  | Pop chan "'v \<Rightarrow> 'v prog"
  | PopLoop chan "'v \<Rightarrow> 'v prog"
  | Clear chan "'v prog"
  | Touch chan "'v prog"
  | Size chan "nat \<Rightarrow> 'v prog"
  | Empty chan "bool \<Rightarrow> 'v prog"
  | Await "'v \<Rightarrow> 'v outcome" 'v nat "'v outcome \<Rightarrow> 'v prog"
  | AwaitPoll nat "'v outcome \<Rightarrow> 'v prog"

text \<open>
  An execution context: \<open>Entry\<close> is the context \<open>makecontext\<close> builds (about to call
  \<open>entry\<close>); \<open>Ctx p fr\<close> is code \<open>p\<close> running above the frame \<open>fr\<close>, where \<open>fr\<close> holds the
  locals \<open>id\<close> and \<open>routine\<close> of \<open>entry\<close>, or is \<open>None\<close> for the host.
\<close>

datatype 'v ucontext = Entry | Ctx "'v prog" "(routine_t \<times> addr) option"

text \<open>What a run lets an observer see of the channels.\<close>

datatype 'v event = Pushed chan 'v | Popped chan 'v | Cleared chan

subsection \<open>Data\<close>

record 'v Routine =
  func :: "'v prog"
  stack :: "nat option"
  finished :: bool
  ctx :: "'v ucontext option"

record 'v Ordinator =
  routines :: "addr option list"
  indexes :: "routine_t list"
  current :: routine_t
  stack_size :: nat
  ctx :: "'v ucontext option"
  beyond :: "nat \<Rightarrow> error + addr option"

record 'v Channel =
  chan_list :: "'v list"
  chan_taker :: routine_t

text \<open>
  A future: how many polls will still time out, and what the call it stands for produces.
\<close>

record 'v future =
  remaining :: nat
  outcome_of :: "'v outcome"

record 'v world =
  ordinator :: "'v Ordinator"
  heap :: "'v Routine list"
  channels :: "chan \<Rightarrow> 'v Channel"
  futures :: "'v future list"
  running :: "'v ucontext"
  trace :: "'v event list"

definition STACK_LIMIT :: nat where
  "STACK_LIMIT = 1024 * 1024"

text \<open>\<open>Routine(f)\<close>: no stack yet, not finished, the context not yet initialised.\<close>

definition new_Routine :: "'v prog \<Rightarrow> 'v Routine" where
  "new_Routine f = \<lparr>func = f, stack = None, finished = False, Routine.ctx = None\<rparr>"

text \<open>Memory in which every read outside the table finds a null pointer.\<close>

definition zeroed :: "nat \<Rightarrow> error + addr option" where
  "zeroed = (\<lambda>i. Inr None)"

text \<open>
  \<open>Ordinator(ss)\<close> with the default argument. The example runs take place in zeroed
  memory; none of the general properties depends on that.
\<close>

definition new_Ordinator :: "'v Ordinator" where
  "new_Ordinator =
     \<lparr>routines = [], indexes = [], current = 0, stack_size = STACK_LIMIT, Ordinator.ctx = None,
      beyond = zeroed\<rparr>"

text \<open>
  \<open>Channel()\<close>. The members \<open>list_\<close> and \<open>taker_\<close> are written \<open>chan_list\<close> and
  \<open>chan_taker\<close> (a name cannot end in an underscore here).
\<close>

definition new_Channel :: "'v Channel" where
  "new_Channel = \<lparr>chan_list = [], chan_taker = 0\<rparr>"

text \<open>A thread that starts running the host code \<open>p\<close>; every channel is default-constructed.\<close>

definition boot :: "'v prog \<Rightarrow> 'v world" where
  "boot p = \<lparr>ordinator = new_Ordinator, heap = [], channels = (\<lambda>c. new_Channel),
             futures = [], running = Ctx p None, trace = []\<rparr>"

subsection \<open>Table and store access\<close>

text \<open>Whether \<open>id - 1\<close>, computed in \<open>unsigned int\<close>, is an index of the table.\<close>

definition in_table :: "'v Ordinator \<Rightarrow> routine_t \<Rightarrow> bool" where
  "in_table od rid = (unat (rid - 1) < length (routines od))"

text \<open>
  Reading \<open>ordinator.routines[id - 1]\<close>: the table entry, or outside the table whatever
  \<open>beyond\<close> gives.
\<close>

definition slot :: "'v Ordinator \<Rightarrow> routine_t \<Rightarrow> error + addr option" where
  "slot od rid =
     (if in_table od rid then Inr (routines od ! unat (rid - 1))
      else beyond od (unat (rid - 1)))"

text \<open>Writing \<open>ordinator.routines[id - 1]\<close>.\<close>

definition put_slot :: "'v Ordinator \<Rightarrow> routine_t \<Rightarrow> addr option \<Rightarrow> 'v Ordinator" where
  "put_slot od rid x =
     (if in_table od rid then od\<lparr>routines := (routines od)[unat (rid - 1) := x]\<rparr>
      else od\<lparr>beyond := (beyond od)(unat (rid - 1) := Inr x)\<rparr>)"

text \<open>Following a non-null pointer to its \<open>Routine\<close>.\<close>

definition deref :: "'v world \<Rightarrow> addr \<Rightarrow> error + 'v Routine" where
  "deref w a = (if a < length (heap w) then Inr (heap w ! a) else Inl BadPointer)"

subsection \<open>create, destroy, current\<close>

definition create :: "'v prog \<Rightarrow> 'v world \<Rightarrow> error + (routine_t \<times> 'v world)" where
  "create f w =
     (let od = ordinator w;
          a = length (heap w);
          w1 = w\<lparr>heap := heap w @ [new_Routine f]\<rparr>
      in case indexes od of
           [] \<Rightarrow>
             (let rs = routines od @ [Some a]
              in Inr (of_nat (length rs), w1\<lparr>ordinator := od\<lparr>routines := rs\<rparr>\<rparr>))
         | rid # rest \<Rightarrow>
             (case slot od rid of
                Inl e \<Rightarrow> Inl e
              | Inr (Some b) \<Rightarrow> Inl AssertFailed
              | Inr None \<Rightarrow>
                  Inr (rid, w1\<lparr>ordinator := (put_slot od rid (Some a))\<lparr>indexes := rest\<rparr>\<rparr>)))"

definition destroy :: "routine_t \<Rightarrow> 'v world \<Rightarrow> error + 'v world" where
  "destroy rid w =
     (let od = ordinator w
      in case slot od rid of
           Inl e \<Rightarrow> Inl e
         | Inr None \<Rightarrow> Inl AssertFailed
         | Inr (Some a) \<Rightarrow>
             Inr (w\<lparr>ordinator := (put_slot od rid None)\<lparr>indexes := indexes od @ [rid]\<rparr>\<rparr>))"

text \<open>\<open>current()\<close>.\<close>

definition current_routine :: "'v world \<Rightarrow> routine_t" where
  "current_routine w = current (ordinator w)"

subsection \<open>The context switch: entry, resume, yield\<close>

text \<open>
  \<open>entry\<close> is split at its call of the body: \<open>entry_begin\<close> is the part before
  \<open>routine->func()\<close> (it reads \<open>current\<close> and the table, then calls the body above a frame
  holding \<open>id\<close> and \<open>routine\<close>); \<open>entry_end\<close> is the part after the body has returned,
  followed by the return of \<open>entry\<close> itself, which continues at \<open>uc_link\<close>, that is at
  whatever \<open>ordinator.ctx\<close> holds then.
\<close>

definition entry_begin :: "'v world \<Rightarrow> error + 'v world" where
  "entry_begin w =
     (let rid = current (ordinator w)
      in case slot (ordinator w) rid of
           Inl e \<Rightarrow> Inl e
         | Inr None \<Rightarrow> Inl NullDeref
         | Inr (Some a) \<Rightarrow>
             (case deref w a of
                Inl e \<Rightarrow> Inl e
              | Inr r \<Rightarrow> Inr (w\<lparr>running := Ctx (func r) (Some (rid, a))\<rparr>)))"

definition entry_end :: "routine_t \<Rightarrow> addr \<Rightarrow> 'v world \<Rightarrow> error + 'v world" where
  "entry_end rid a w =
     (case deref w a of
        Inl e \<Rightarrow> Inl e
      | Inr r \<Rightarrow>
          (case Ordinator.ctx (ordinator w) of
             None \<Rightarrow> Inl Uninitialised
           | Some h \<Rightarrow>
               Inr (w\<lparr>heap := (heap w)[a := r\<lparr>finished := True\<rparr>],
                      ordinator := (ordinator w)\<lparr>current := 0,
                                                 indexes := indexes (ordinator w) @ [rid]\<rparr>,
                      running := h\<rparr>)))"

text \<open>
  \<open>resume\<close> either returns at once with \<open>-1\<close> or \<open>-2\<close>, touching nothing, or it switches:
  \<open>swapcontext\<close> stores the caller's context \<open>ret\<close> (the code after \<open>resume\<close> has returned
  \<open>0\<close>) in \<open>ordinator.ctx\<close> and continues in the routine's context.
\<close>

datatype 'v resumed = Returned int | Switched "'v world"

definition resume :: "routine_t \<Rightarrow> 'v ucontext \<Rightarrow> 'v world \<Rightarrow> error + 'v resumed" where
  "resume rid ret w =
     (let od = ordinator w
      in if current od \<noteq> 0 then Inl AssertFailed
         else case slot od rid of
           Inl e \<Rightarrow> Inl e
         | Inr None \<Rightarrow> Inr (Returned (- 1))
         | Inr (Some a) \<Rightarrow>
             (case deref w a of
                Inl e \<Rightarrow> Inl e
              | Inr r \<Rightarrow>
                  if finished r then Inr (Returned (- 2))
                  else if stack r = None then
                    Inr (Switched
                      (w\<lparr>heap := (heap w)[a := r\<lparr>stack := Some (stack_size od),
                                                  Routine.ctx := Some Entry\<rparr>],
                         ordinator := od\<lparr>current := rid, Ordinator.ctx := Some ret\<rparr>,
                         running := Entry\<rparr>))
                  else
                    (case Routine.ctx r of
                       None \<Rightarrow> Inl Uninitialised
                     | Some c \<Rightarrow>
                         Inr (Switched
                           (w\<lparr>ordinator := od\<lparr>current := rid, Ordinator.ctx := Some ret\<rparr>,
                              running := c\<rparr>)))))"

text \<open>
  \<open>yield\<close> stores the caller's context \<open>ret\<close> in the context of the routine found at
  \<open>current\<close> and continues at \<open>ordinator.ctx\<close>. Its second assertion measures the distance
  from \<open>routine->stack + stack_size\<close> to a local variable; the depth of the C stack is not
  part of the model, so the assertion is taken to hold for a routine that has a stack and
  to fail for one whose \<open>stack\<close> is still null.
\<close>

definition yield :: "'v ucontext \<Rightarrow> 'v world \<Rightarrow> error + 'v world" where
  "yield ret w =
     (let od = ordinator w; rid = current od
      in case slot od rid of
           Inl e \<Rightarrow> Inl e
         | Inr None \<Rightarrow> Inl AssertFailed
         | Inr (Some a) \<Rightarrow>
             (case deref w a of
                Inl e \<Rightarrow> Inl e
              | Inr r \<Rightarrow>
                  (case stack r of
                     None \<Rightarrow> Inl AssertFailed
                   | Some sz \<Rightarrow>
                       (case Ordinator.ctx od of
                          None \<Rightarrow> Inl Uninitialised
                        | Some h \<Rightarrow>
                            Inr (w\<lparr>heap := (heap w)[a := r\<lparr>Routine.ctx := Some ret\<rparr>],
                                   ordinator := od\<lparr>current := 0\<rparr>,
                                   running := h\<rparr>)))))"

subsection \<open>Channel\<close>

text \<open>
  The member functions that touch only the channel object take it and return it
  (\<open>Channel_size\<close> and \<open>Channel_empty\<close> are not declared \<open>const\<close> in the source).
\<close>

definition Channel_consume :: "routine_t \<Rightarrow> 'v Channel \<Rightarrow> 'v Channel" where
  "Channel_consume rid ch = ch\<lparr>chan_taker := rid\<rparr>"

definition Channel_clear :: "'v Channel \<Rightarrow> 'v Channel" where
  "Channel_clear ch = ch\<lparr>chan_list := []\<rparr>"

definition Channel_size :: "'v Channel \<Rightarrow> nat \<times> 'v Channel" where
  "Channel_size ch = (length (chan_list ch), ch)"

definition Channel_empty :: "'v Channel \<Rightarrow> bool \<times> 'v Channel" where
  "Channel_empty ch = (chan_list ch = [], ch)"

text \<open>
  \<open>push\<close>, \<open>touch\<close> and \<open>pop\<close> call into the scheduler, so they act on the whole state;
  \<open>ret\<close> is the caller's code after the call. \<open>push_back\<close> is \<open>list_.push_back(obj)\<close> on
  channel \<open>c\<close>, recorded in the trace.
\<close>

definition push_back :: "chan \<Rightarrow> 'v \<Rightarrow> 'v world \<Rightarrow> 'v world" where
  "push_back c v w =
     w\<lparr>channels := (channels w)(c := (channels w c)\<lparr>chan_list := chan_list (channels w c) @ [v]\<rparr>),
       trace := trace w @ [Pushed c v]\<rparr>"

definition Channel_push :: "chan \<Rightarrow> 'v \<Rightarrow> 'v ucontext \<Rightarrow> 'v world \<Rightarrow> error + 'v world" where
  "Channel_push c v ret w =
     (let w1 = push_back c v w;
          ch = channels w1 c
      in if chan_taker ch \<noteq> 0 \<and> chan_taker ch \<noteq> current_routine w1 then
           (case resume (chan_taker ch) ret w1 of
              Inl e \<Rightarrow> Inl e
            | Inr (Returned r) \<Rightarrow> Inr (w1\<lparr>running := ret\<rparr>)
            | Inr (Switched w2) \<Rightarrow> Inr w2)
         else Inr (w1\<lparr>running := ret\<rparr>))"

definition Channel_touch :: "chan \<Rightarrow> 'v ucontext \<Rightarrow> 'v world \<Rightarrow> error + 'v world" where
  "Channel_touch c ret w =
     (let ch = channels w c
      in if chan_taker ch \<noteq> 0 \<and> chan_taker ch \<noteq> current_routine w then
           (case resume (chan_taker ch) ret w of
              Inl e \<Rightarrow> Inl e
            | Inr (Returned r) \<Rightarrow> Inr (w\<lparr>running := ret\<rparr>)
            | Inr (Switched w2) \<Rightarrow> Inr w2)
         else Inr (w\<lparr>running := ret\<rparr>))"

text \<open>
  The loop of \<open>pop\<close>: on an empty queue it yields, and the context saved is the head of
  the loop again; otherwise the front value is removed and handed to the caller's code.
\<close>

definition pop_loop ::
  "chan \<Rightarrow> ('v \<Rightarrow> 'v prog) \<Rightarrow> (routine_t \<times> addr) option \<Rightarrow> 'v world \<Rightarrow> error + 'v world" where
  "pop_loop c k fr w =
     (case chan_list (channels w c) of
        [] \<Rightarrow> yield (Ctx (PopLoop c k) fr) w
      | x # xs \<Rightarrow>
          Inr (w\<lparr>channels := (channels w)(c := (channels w c)\<lparr>chan_list := xs\<rparr>),
                 trace := trace w @ [Popped c x],
                 running := Ctx (k x) fr\<rparr>))"

definition Channel_pop ::
  "chan \<Rightarrow> ('v \<Rightarrow> 'v prog) \<Rightarrow> (routine_t \<times> addr) option \<Rightarrow> 'v world \<Rightarrow> error + 'v world" where
  "Channel_pop c k fr w =
     (let ch = channels w c;
          w1 = (if chan_taker ch = 0
                then w\<lparr>channels := (channels w)(c := ch\<lparr>chan_taker := current_routine w\<rparr>)\<rparr>
                else w)
      in pop_loop c k fr w1)"

subsection \<open>await\<close>

text \<open>
  \<open>launch\<close> is \<open>std::async(std::launch::async, func, args...)\<close>: one new future, whose
  outcome is that of the one call \<open>f x\<close>. \<open>wait_for\<close> is \<open>future.wait_for(0)\<close> compared with
  \<open>timeout\<close>: it answers whether the future is ready, and a poll that times out uses up
  one of the remaining time-outs. \<open>future_get\<close> is \<open>future.get()\<close>. In the source the
  future is a local of \<open>await\<close>; here it is named by its place in the list, which
  \<open>await\<close> gets from \<open>launch\<close>, so the polls of \<open>await\<close> always find it (a poll of a
  place that holds no future is the error \<open>BadPointer\<close>).
\<close>

definition launch :: "('v \<Rightarrow> 'v outcome) \<Rightarrow> 'v \<Rightarrow> nat \<Rightarrow> 'v world \<Rightarrow> nat \<times> 'v world" where
  "launch f x n w =
     (length (futures w), w\<lparr>futures := futures w @ [\<lparr>remaining = n, outcome_of = f x\<rparr>]\<rparr>)"

definition wait_for :: "nat \<Rightarrow> 'v world \<Rightarrow> error + (bool \<times> 'v world)" where
  "wait_for i w =
     (if i < length (futures w) then
        (case remaining (futures w ! i) of
           0 \<Rightarrow> Inr (True, w)
         | Suc m \<Rightarrow> Inr (False, w\<lparr>futures := (futures w)[i := (futures w ! i)\<lparr>remaining := m\<rparr>]\<rparr>))
      else Inl BadPointer)"

definition future_get :: "nat \<Rightarrow> 'v world \<Rightarrow> 'v outcome" where
  "future_get i w = outcome_of (futures w ! i)"

text \<open>
  The rest of \<open>await\<close> from a poll on: \<open>status = future.wait_for(0)\<close>, then the test of the
  \<open>while\<close> loop. When the future is ready \<open>await\<close> returns \<open>future.get()\<close> to its caller;
  otherwise it yields if it runs inside a routine, and in either case goes on to the next
  poll.
\<close>

definition await_loop ::
  "nat \<Rightarrow> ('v outcome \<Rightarrow> 'v prog) \<Rightarrow> (routine_t \<times> addr) option \<Rightarrow> 'v world \<Rightarrow> error + 'v world" where
  "await_loop i k fr w =
     (case wait_for i w of
        Inl e \<Rightarrow> Inl e
      | Inr (ready, w1) \<Rightarrow>
          if ready then Inr (w1\<lparr>running := Ctx (k (future_get i w1)) fr\<rparr>)
          else if current_routine w1 \<noteq> 0 then yield (Ctx (AwaitPoll i k) fr) w1
          else Inr (w1\<lparr>running := Ctx (AwaitPoll i k) fr\<rparr>))"

definition await ::
  "('v \<Rightarrow> 'v outcome) \<Rightarrow> 'v \<Rightarrow> nat \<Rightarrow> ('v outcome \<Rightarrow> 'v prog) \<Rightarrow> (routine_t \<times> addr) option
     \<Rightarrow> 'v world \<Rightarrow> error + 'v world" where
  "await f x n k fr w = (case launch f x n w of (i, w1) \<Rightarrow> await_loop i k fr w1)"

subsection \<open>Running code\<close>

text \<open>
  One call of the running code, up to the point where control is in some context again.
  When the host code has returned nothing is left to do.
\<close>

fun exec :: "'v prog \<Rightarrow> (routine_t \<times> addr) option \<Rightarrow> 'v world \<Rightarrow> error + 'v world" where
  "exec Return fr w = (case fr of None \<Rightarrow> Inr w | Some (rid, a) \<Rightarrow> entry_end rid a w)"
| "exec (Create f k) fr w =
     (case create f w of
        Inl e \<Rightarrow> Inl e
      | Inr (rid, w1) \<Rightarrow> Inr (w1\<lparr>running := Ctx (k rid) fr\<rparr>))"
| "exec (Destroy rid k) fr w =
     (case destroy rid w of
        Inl e \<Rightarrow> Inl e
      | Inr w1 \<Rightarrow> Inr (w1\<lparr>running := Ctx k fr\<rparr>))"
| "exec (Resume rid k) fr w =
     (case resume rid (Ctx (k 0) fr) w of
        Inl e \<Rightarrow> Inl e
      | Inr (Returned r) \<Rightarrow> Inr (w\<lparr>running := Ctx (k r) fr\<rparr>)
      | Inr (Switched w1) \<Rightarrow> Inr w1)"
| "exec (Yield k) fr w = yield (Ctx k fr) w"
| "exec (Current k) fr w = Inr (w\<lparr>running := Ctx (k (current_routine w)) fr\<rparr>)"
| "exec (Consume c rid k) fr w =
     Inr (w\<lparr>channels := (channels w)(c := Channel_consume rid (channels w c)),
            running := Ctx k fr\<rparr>)"
| "exec (Push c v k) fr w = Channel_push c v (Ctx k fr) w"
| "exec (Pop c k) fr w = Channel_pop c k fr w"
| "exec (PopLoop c k) fr w = pop_loop c k fr w"
| "exec (Clear c k) fr w =
     Inr (w\<lparr>channels := (channels w)(c := Channel_clear (channels w c)),
            trace := trace w @ [Cleared c],
            running := Ctx k fr\<rparr>)"
| "exec (Touch c k) fr w = Channel_touch c (Ctx k fr) w"
| "exec (Size c k) fr w =
     (case Channel_size (channels w c) of
        (n, ch) \<Rightarrow> Inr (w\<lparr>channels := (channels w)(c := ch), running := Ctx (k n) fr\<rparr>))"
| "exec (Empty c k) fr w =
     (case Channel_empty (channels w c) of
        (b, ch) \<Rightarrow> Inr (w\<lparr>channels := (channels w)(c := ch), running := Ctx (k b) fr\<rparr>))"
| "exec (Await f x n k) fr w = await f x n k fr w"
| "exec (AwaitPoll i k) fr w = await_loop i k fr w"

definition step :: "'v world \<Rightarrow> error + 'v world" where
  "step w = (case running w of Entry \<Rightarrow> entry_begin w | Ctx p fr \<Rightarrow> exec p fr w)"

primrec steps :: "nat \<Rightarrow> 'v world \<Rightarrow> error + 'v world" where
  "steps 0 w = Inr w"
| "steps (Suc n) w = (case step w of Inl e \<Rightarrow> Inl e | Inr w1 \<Rightarrow> steps n w1)"

text \<open>A run of consecutive \<open>create\<close> calls, collecting the identifiers returned.\<close>

fun creates :: "'v prog list \<Rightarrow> 'v world \<Rightarrow> error + (routine_t list \<times> 'v world)" where
  "creates [] w = Inr ([], w)"
| "creates (f # fs) w =
     (case create f w of
        Inl e \<Rightarrow> Inl e
      | Inr (rid, w1) \<Rightarrow>
          (case creates fs w1 of
             Inl e \<Rightarrow> Inl e
           | Inr (rids, w2) \<Rightarrow> Inr (rid # rids, w2)))"

text \<open>
  Caller code that pushes the values of a list to channel \<open>c\<close> one after the other, and
  caller code that pops \<open>n\<close> times from \<open>c\<close> and goes on with the list of the values the
  pops returned, in the order of the calls.
\<close>

fun pushes :: "chan \<Rightarrow> 'v list \<Rightarrow> 'v prog \<Rightarrow> 'v prog" where
  "pushes c [] p = p"
| "pushes c (v # vs) p = Push c v (pushes c vs p)"

fun pops :: "chan \<Rightarrow> nat \<Rightarrow> 'v list \<Rightarrow> ('v list \<Rightarrow> 'v prog) \<Rightarrow> 'v prog" where
  "pops c 0 acc K = K acc"
| "pops c (Suc n) acc K = Pop c (\<lambda>x. pops c n (acc @ [x]) K)"

subsection \<open>Reading a trace\<close>

text \<open>The values pushed to and popped from channel \<open>c\<close>, in order, and whether it was cleared.\<close>

fun pushed :: "chan \<Rightarrow> 'v event list \<Rightarrow> 'v list" where
  "pushed c [] = []"
| "pushed c (Pushed d v # es) = (if d = c then v # pushed c es else pushed c es)"
| "pushed c (Popped d v # es) = pushed c es"
| "pushed c (Cleared d # es) = pushed c es"

fun popped :: "chan \<Rightarrow> 'v event list \<Rightarrow> 'v list" where
  "popped c [] = []"
| "popped c (Pushed d v # es) = popped c es"
| "popped c (Popped d v # es) = (if d = c then v # popped c es else popped c es)"
| "popped c (Cleared d # es) = popped c es"

fun cleared :: "chan \<Rightarrow> 'v event list \<Rightarrow> bool" where
  "cleared c [] = False"
| "cleared c (Pushed d v # es) = cleared c es"
| "cleared c (Popped d v # es) = cleared c es"
| "cleared c (Cleared d # es) = (d = c \<or> cleared c es)"

text \<open>
  How the queue of \<open>c\<close> moves between two states of a run: the trace grows by some events,
  and unless \<open>c\<close> was cleared among them, the old queue followed by the values pushed is
  the values popped followed by the new queue.
\<close>

definition fifo_move :: "chan \<Rightarrow> 'v world \<Rightarrow> 'v world \<Rightarrow> bool" where
  "fifo_move c w w1 =
     (\<exists>es. trace w1 = trace w @ es \<and>
        (cleared c es \<or>
         chan_list (channels w c) @ pushed c es = popped c es @ chan_list (channels w1 c)))"

text \<open>The events a run from \<open>w\<close> to \<open>w1\<close> has added to the trace.\<close>

definition since :: "'v world \<Rightarrow> 'v world \<Rightarrow> 'v event list" where
  "since w w1 = drop (length (trace w)) (trace w1)"

subsection \<open>Example runs\<close>

text \<open>
  Host code used to exhibit concrete states. Each state below is written out and is
  reached from \<open>boot\<close> by the number of calls stated in the lemmas that follow.
\<close>

text \<open>A routine that returns at once is resumed, then a second routine is created.\<close>

definition recycle_prog :: "int prog" where
  "recycle_prog = Create Return (\<lambda>a. Resume a (\<lambda>r. Create Return (\<lambda>b. Return)))"

text \<open>After three calls: the body of routine 1 has just returned into \<open>entry\<close>.\<close>

definition finishing_world :: "int world" where
  "finishing_world =
     \<lparr>ordinator =
        \<lparr>routines = [Some 0], indexes = [], current = 1, stack_size = STACK_LIMIT,
           Ordinator.ctx = Some (Ctx (Create Return (\<lambda>b. Return)) None),
           beyond = zeroed\<rparr>,
      heap = [\<lparr>func = Return, stack = Some STACK_LIMIT, finished = False,
               Routine.ctx = Some Entry\<rparr>],
      channels = (\<lambda>c. new_Channel),
      futures = [],
      running = Ctx Return (Some (1, 0)),
      trace = []\<rparr>"

text \<open>After four calls: routine 1 has finished and the host is about to call \<open>create\<close>.\<close>

definition recycle_world :: "int world" where
  "recycle_world =
     \<lparr>ordinator =
        \<lparr>routines = [Some 0], indexes = [1], current = 0, stack_size = STACK_LIMIT,
           Ordinator.ctx = Some (Ctx (Create Return (\<lambda>b. Return)) None),
           beyond = zeroed\<rparr>,
      heap = [\<lparr>func = Return, stack = Some STACK_LIMIT, finished = True,
               Routine.ctx = Some Entry\<rparr>],
      channels = (\<lambda>c. new_Channel),
      futures = [],
      running = Ctx (Create Return (\<lambda>b. Return)) None,
      trace = []\<rparr>"

text \<open>
  The same with the finished routine destroyed before two more routines are created.
\<close>

definition redestroy_prog :: "int prog" where
  "redestroy_prog =
     Create Return (\<lambda>a. Resume a (\<lambda>r. Destroy a
       (Create Return (\<lambda>b. Create Return (\<lambda>c. Return)))))"

text \<open>After six calls: identifier 1 was issued again and is still on the free-list.\<close>

definition redestroy_world :: "int world" where
  "redestroy_world =
     \<lparr>ordinator =
        \<lparr>routines = [Some 1], indexes = [1], current = 0, stack_size = STACK_LIMIT,
           Ordinator.ctx =
             Some (Ctx (Destroy 1 (Create Return (\<lambda>b. Create Return (\<lambda>c. Return)))) None),
           beyond = zeroed\<rparr>,
      heap = [\<lparr>func = Return, stack = Some STACK_LIMIT, finished = True,
               Routine.ctx = Some Entry\<rparr>,
              \<lparr>func = Return, stack = None, finished = False, Routine.ctx = None\<rparr>],
      channels = (\<lambda>c. new_Channel),
      futures = [],
      running = Ctx (Create Return (\<lambda>c. Return)) None,
      trace = []\<rparr>"

text \<open>Two routines; the second is destroyed, the first runs to completion.\<close>

definition demo_prog :: "int prog" where
  "demo_prog =
     Create Return (\<lambda>a. Create Return (\<lambda>b. Destroy b (Resume a (\<lambda>r. Return))))"

definition demo_world :: "int world" where
  "demo_world =
     \<lparr>ordinator =
        \<lparr>routines = [Some 0, None], indexes = [2, 1], current = 0, stack_size = STACK_LIMIT,
           Ordinator.ctx = Some (Ctx Return None),
           beyond = zeroed\<rparr>,
      heap = [\<lparr>func = Return, stack = Some STACK_LIMIT, finished = True,
               Routine.ctx = Some Entry\<rparr>,
              \<lparr>func = Return, stack = None, finished = False, Routine.ctx = None\<rparr>],
      channels = (\<lambda>c. new_Channel),
      futures = [],
      running = Ctx Return None,
      trace = []\<rparr>"

text \<open>
  A consumer that pops from channel 0 and a producer that pushes 7 to it; the host resumes
  the consumer first, then the producer.
\<close>

definition handoff_prog :: "int prog" where
  "handoff_prog =
     Create (Pop 0 (\<lambda>v. Return)) (\<lambda>a.
     Create (Push 0 7 Return) (\<lambda>b.
     Resume a (\<lambda>r. Resume b (\<lambda>r. Return))))"

text \<open>
  After seven calls: routine 1 is bound to channel 0 and suspended inside \<open>pop\<close> on the
  empty queue; routine 2 is running and about to call \<open>push\<close>.
\<close>

definition handoff_world :: "int world" where
  "handoff_world =
     \<lparr>ordinator =
        \<lparr>routines = [Some 0, Some 1], indexes = [], current = 2, stack_size = STACK_LIMIT,
           Ordinator.ctx = Some (Ctx Return None),
           beyond = zeroed\<rparr>,
      heap = [\<lparr>func = Pop 0 (\<lambda>v. Return), stack = Some STACK_LIMIT, finished = False,
               Routine.ctx = Some (Ctx (PopLoop 0 (\<lambda>v. Return)) (Some (1, 0)))\<rparr>,
              \<lparr>func = Push 0 7 Return, stack = Some STACK_LIMIT, finished = False,
               Routine.ctx = Some Entry\<rparr>],
      channels = (\<lambda>c. new_Channel)(0 := \<lparr>chan_list = [], chan_taker = 1\<rparr>),
      futures = [],
      running = Ctx (Push 0 7 Return) (Some (2, 1)),
      trace = []\<rparr>"

text \<open>A consumer is created and bound to channel 0 before it has ever run; the host pushes.\<close>

definition bound_prog :: "int prog" where
  "bound_prog = Create (Pop 0 (\<lambda>v. Return)) (\<lambda>a. Consume 0 a (Push 0 3 Return))"

definition bound_world :: "int world" where
  "bound_world =
     \<lparr>ordinator =
        \<lparr>routines = [Some 0], indexes = [], current = 0, stack_size = STACK_LIMIT,
           Ordinator.ctx = None, beyond = zeroed\<rparr>,
      heap = [\<lparr>func = Pop 0 (\<lambda>v. Return), stack = None, finished = False,
               Routine.ctx = None\<rparr>],
      channels = (\<lambda>c. new_Channel)(0 := \<lparr>chan_list = [], chan_taker = 1\<rparr>),
      futures = [],
      running = Ctx (Push 0 3 Return) None,
      trace = []\<rparr>"

text \<open>A routine that yields once and returns, resumed three times.\<close>

definition once_prog :: "int prog" where
  "once_prog =
     Create (Yield Return)
       (\<lambda>a. Resume a (\<lambda>r1. Resume a (\<lambda>r2. Resume a (\<lambda>r3. Return))))"

definition once_world :: "int world" where
  "once_world =
     \<lparr>ordinator =
        \<lparr>routines = [Some 0], indexes = [], current = 0, stack_size = STACK_LIMIT,
           Ordinator.ctx = None, beyond = zeroed\<rparr>,
      heap = [\<lparr>func = Yield Return, stack = None, finished = False, Routine.ctx = None\<rparr>],
      channels = (\<lambda>c. new_Channel),
      futures = [],
      running = Ctx (Resume 1 (\<lambda>r1. Resume 1 (\<lambda>r2. Resume 1 (\<lambda>r3. Return)))) None,
      trace = []\<rparr>"

text \<open>A consumer that pops twice from channel 0; the host pushes 10 and 11.\<close>

definition fifo_prog :: "int prog" where
  "fifo_prog =
     Create (Pop 0 (\<lambda>x. Pop 0 (\<lambda>y. Return)))
       (\<lambda>a. Resume a (\<lambda>r. Push 0 10 (Push 0 11 Return)))"

text \<open>After three calls: the consumer has been entered and is about to pop.\<close>

definition popping_world :: "int world" where
  "popping_world =
     \<lparr>ordinator =
        \<lparr>routines = [Some 0], indexes = [], current = 1, stack_size = STACK_LIMIT,
           Ordinator.ctx = Some (Ctx (Push 0 10 (Push 0 11 Return)) None),
           beyond = zeroed\<rparr>,
      heap = [\<lparr>func = Pop 0 (\<lambda>x. Pop 0 (\<lambda>y. Return)), stack = Some STACK_LIMIT,
               finished = False, Routine.ctx = Some Entry\<rparr>],
      channels = (\<lambda>c. new_Channel),
      futures = [],
      running = Ctx (Pop 0 (\<lambda>x. Pop 0 (\<lambda>y. Return))) (Some (1, 0)),
      trace = []\<rparr>"

text \<open>After four calls: the consumer is suspended inside \<open>pop\<close>, the host is about to push.\<close>

definition parked_world :: "int world" where
  "parked_world =
     \<lparr>ordinator =
        \<lparr>routines = [Some 0], indexes = [], current = 0, stack_size = STACK_LIMIT,
           Ordinator.ctx = Some (Ctx (Push 0 10 (Push 0 11 Return)) None),
           beyond = zeroed\<rparr>,
      heap = [\<lparr>func = Pop 0 (\<lambda>x. Pop 0 (\<lambda>y. Return)), stack = Some STACK_LIMIT,
               finished = False,
               Routine.ctx = Some (Ctx (PopLoop 0 (\<lambda>x. Pop 0 (\<lambda>y. Return))) (Some (1, 0)))\<rparr>],
      channels = (\<lambda>c. new_Channel)(0 := \<lparr>chan_list = [], chan_taker = 1\<rparr>),
      futures = [],
      running = Ctx (Push 0 10 (Push 0 11 Return)) None,
      trace = []\<rparr>"

text \<open>
  After five calls: the host has pushed 10 and is parked inside \<open>push\<close>; the consumer is
  running again at the head of the loop of \<open>pop\<close>.
\<close>

definition handed_world :: "int world" where
  "handed_world =
     \<lparr>ordinator =
        \<lparr>routines = [Some 0], indexes = [], current = 1, stack_size = STACK_LIMIT,
           Ordinator.ctx = Some (Ctx (Push 0 11 Return) None),
           beyond = zeroed\<rparr>,
      heap = [\<lparr>func = Pop 0 (\<lambda>x. Pop 0 (\<lambda>y. Return)), stack = Some STACK_LIMIT,
               finished = False,
               Routine.ctx = Some (Ctx (PopLoop 0 (\<lambda>x. Pop 0 (\<lambda>y. Return))) (Some (1, 0)))\<rparr>],
      channels = (\<lambda>c. new_Channel)(0 := \<lparr>chan_list = [10], chan_taker = 1\<rparr>),
      futures = [],
      running = Ctx (PopLoop 0 (\<lambda>x. Pop 0 (\<lambda>y. Return))) (Some (1, 0)),
      trace = [Pushed 0 10]\<rparr>"

text \<open>After ten calls: both values have gone through the channel.\<close>

definition drained_world :: "int world" where
  "drained_world =
     \<lparr>ordinator =
        \<lparr>routines = [Some 0], indexes = [1], current = 0, stack_size = STACK_LIMIT,
           Ordinator.ctx = Some (Ctx Return None),
           beyond = zeroed\<rparr>,
      heap = [\<lparr>func = Pop 0 (\<lambda>x. Pop 0 (\<lambda>y. Return)), stack = Some STACK_LIMIT,
               finished = True,
               Routine.ctx = Some (Ctx (PopLoop 0 (\<lambda>y. Return)) (Some (1, 0)))\<rparr>],
      channels = (\<lambda>c. new_Channel)(0 := \<lparr>chan_list = [], chan_taker = 1\<rparr>),
      futures = [],
      running = Ctx Return None,
      trace = [Pushed 0 10, Popped 0 10, Pushed 0 11, Popped 0 11]\<rparr>"

text \<open>Three routines are created and none is run.\<close>

definition three_prog :: "int prog" where
  "three_prog = Create Return (\<lambda>a. Create Return (\<lambda>b. Create Return (\<lambda>c. Return)))"

definition three_world :: "int world" where
  "three_world =
     \<lparr>ordinator =
        \<lparr>routines = [Some 0, Some 1, Some 2], indexes = [], current = 0,
           stack_size = STACK_LIMIT, Ordinator.ctx = None, beyond = zeroed\<rparr>,
      heap = [\<lparr>func = Return, stack = None, finished = False, Routine.ctx = None\<rparr>,
              \<lparr>func = Return, stack = None, finished = False, Routine.ctx = None\<rparr>,
              \<lparr>func = Return, stack = None, finished = False, Routine.ctx = None\<rparr>],
      channels = (\<lambda>c. new_Channel),
      futures = [],
      running = Ctx Return None,
      trace = []\<rparr>"

text \<open>
  The host pushes 10, 11 and 12 to channel 0, to which nobody is bound, pops three times
  and pushes what the pops returned, in that order, to channel 1.
\<close>

definition queue_prog :: "int prog" where
  "queue_prog = pushes 0 [10, 11, 12] (pops 0 3 [] (\<lambda>vs. pushes 1 vs Return))"

text \<open>After three calls: the three values are queued.\<close>

definition queued_world :: "int world" where
  "queued_world =
     \<lparr>ordinator = new_Ordinator,
      heap = [],
      channels = (\<lambda>c. new_Channel)(0 := \<lparr>chan_list = [10, 11, 12], chan_taker = 0\<rparr>),
      futures = [],
      running = Ctx (pops 0 3 [] (\<lambda>vs. pushes 1 vs Return)) None,
      trace = [Pushed 0 10, Pushed 0 11, Pushed 0 12]\<rparr>"

text \<open>After nine calls: channel 1 holds what the pops returned.\<close>

definition forwarded_world :: "int world" where
  "forwarded_world =
     \<lparr>ordinator = new_Ordinator,
      heap = [],
      channels = (\<lambda>c. new_Channel)(0 := \<lparr>chan_list = [], chan_taker = 0\<rparr>,
                                         1 := \<lparr>chan_list = [10, 11, 12], chan_taker = 0\<rparr>),
      futures = [],
      running = Ctx Return None,
      trace = [Pushed 0 10, Pushed 0 11, Pushed 0 12, Popped 0 10, Popped 0 11, Popped 0 12,
               Pushed 1 10, Pushed 1 11, Pushed 1 12]\<rparr>"

text \<open>
  A routine awaits a call that adds one to its argument, and pushes the value it gets to
  channel 0 (or the number of the exception to channel 1); two polls time out, and the
  host resumes the routine three times. \<open>failing\<close> is a call that throws.
\<close>

definition add_one :: "int \<Rightarrow> int outcome" where
  "add_one x = Value (x + 1)"

definition failing :: "int \<Rightarrow> int outcome" where
  "failing x = Thrown 7"

definition report :: "int outcome \<Rightarrow> int prog" where
  "report r = (case r of Value v \<Rightarrow> Push 0 v Return | Thrown e \<Rightarrow> Push 1 (int e) Return)"

definition await_prog :: "int prog" where
  "await_prog =
     Create (Await add_one 5 2 report)
       (\<lambda>a. Resume a (\<lambda>r1. Resume a (\<lambda>r2. Resume a (\<lambda>r3. Return))))"

text \<open>After three calls: the routine has been entered and is about to call \<open>await\<close>.\<close>

definition entered_world :: "int world" where
  "entered_world =
     \<lparr>ordinator =
        \<lparr>routines = [Some 0], indexes = [], current = 1, stack_size = STACK_LIMIT,
           Ordinator.ctx = Some (Ctx (Resume 1 (\<lambda>r2. Resume 1 (\<lambda>r3. Return))) None),
           beyond = zeroed\<rparr>,
      heap = [\<lparr>func = Await add_one 5 2 report, stack = Some STACK_LIMIT, finished = False,
               Routine.ctx = Some Entry\<rparr>],
      channels = (\<lambda>c. new_Channel),
      futures = [],
      running = Ctx (Await add_one 5 2 report) (Some (1, 0)),
      trace = []\<rparr>"

text \<open>After four calls: the routine has started the call, polled once and yielded.\<close>

definition awaiting_world :: "int world" where
  "awaiting_world =
     \<lparr>ordinator =
        \<lparr>routines = [Some 0], indexes = [], current = 0, stack_size = STACK_LIMIT,
           Ordinator.ctx = Some (Ctx (Resume 1 (\<lambda>r2. Resume 1 (\<lambda>r3. Return))) None),
           beyond = zeroed\<rparr>,
      heap = [\<lparr>func = Await add_one 5 2 report, stack = Some STACK_LIMIT, finished = False,
               Routine.ctx = Some (Ctx (AwaitPoll 0 report) (Some (1, 0)))\<rparr>],
      channels = (\<lambda>c. new_Channel),
      futures = [\<lparr>remaining = 1, outcome_of = Value 6\<rparr>],
      running = Ctx (Resume 1 (\<lambda>r2. Resume 1 (\<lambda>r3. Return))) None,
      trace = []\<rparr>"

text \<open>After five calls: the routine has been resumed and is about to poll again.\<close>

definition polling_world :: "int world" where
  "polling_world =
     \<lparr>ordinator =
        \<lparr>routines = [Some 0], indexes = [], current = 1, stack_size = STACK_LIMIT,
           Ordinator.ctx = Some (Ctx (Resume 1 (\<lambda>r3. Return)) None), beyond = zeroed\<rparr>,
      heap = [\<lparr>func = Await add_one 5 2 report, stack = Some STACK_LIMIT, finished = False,
               Routine.ctx = Some (Ctx (AwaitPoll 0 report) (Some (1, 0)))\<rparr>],
      channels = (\<lambda>c. new_Channel),
      futures = [\<lparr>remaining = 1, outcome_of = Value 6\<rparr>],
      running = Ctx (AwaitPoll 0 report) (Some (1, 0)),
      trace = []\<rparr>"

text \<open>After seven calls: resumed once more, with the call finished in the meantime.\<close>

definition ready_world :: "int world" where
  "ready_world =
     \<lparr>ordinator =
        \<lparr>routines = [Some 0], indexes = [], current = 1, stack_size = STACK_LIMIT,
           Ordinator.ctx = Some (Ctx Return None), beyond = zeroed\<rparr>,
      heap = [\<lparr>func = Await add_one 5 2 report, stack = Some STACK_LIMIT, finished = False,
               Routine.ctx = Some (Ctx (AwaitPoll 0 report) (Some (1, 0)))\<rparr>],
      channels = (\<lambda>c. new_Channel),
      futures = [\<lparr>remaining = 0, outcome_of = Value 6\<rparr>],
      running = Ctx (AwaitPoll 0 report) (Some (1, 0)),
      trace = []\<rparr>"

text \<open>After ten calls: the routine has received 6, pushed it and finished.\<close>

definition awaited_world :: "int world" where
  "awaited_world =
     \<lparr>ordinator =
        \<lparr>routines = [Some 0], indexes = [1], current = 0, stack_size = STACK_LIMIT,
           Ordinator.ctx = Some (Ctx Return None), beyond = zeroed\<rparr>,
      heap = [\<lparr>func = Await add_one 5 2 report, stack = Some STACK_LIMIT, finished = True,
               Routine.ctx = Some (Ctx (AwaitPoll 0 report) (Some (1, 0)))\<rparr>],
      channels = (\<lambda>c. new_Channel)(0 := \<lparr>chan_list = [6], chan_taker = 0\<rparr>),
      futures = [\<lparr>remaining = 0, outcome_of = Value 6\<rparr>],
      running = Ctx Return None,
      trace = [Pushed 0 6]\<rparr>"

section \<open>Properties\<close>

subsection \<open>The example states are reached\<close>

lemmas run_defs =
  step_def create_def destroy_def resume_def yield_def entry_begin_def entry_end_def
  in_table_def slot_def put_slot_def zeroed_def deref_def launch_def wait_for_def
  future_get_def await_loop_def await_def push_back_def Channel_push_def Channel_pop_def pop_loop_def Channel_touch_def
  Channel_consume_def Channel_clear_def Channel_size_def Channel_empty_def
  current_routine_def boot_def new_Ordinator_def new_Routine_def new_Channel_def Let_def

lemma finishing_world_reached: "steps 3 (boot recycle_prog) = Inr finishing_world"
  by (simp add: eval_nat_numeral recycle_prog_def finishing_world_def run_defs)

lemma recycle_world_reached: "steps 4 (boot recycle_prog) = Inr recycle_world"
  by (simp add: eval_nat_numeral recycle_prog_def recycle_world_def run_defs)

lemma redestroy_world_reached: "steps 6 (boot redestroy_prog) = Inr redestroy_world"
  by (simp add: eval_nat_numeral redestroy_prog_def redestroy_world_def run_defs)

lemma demo_world_reached: "steps 6 (boot demo_prog) = Inr demo_world"
  by (simp add: eval_nat_numeral demo_prog_def demo_world_def run_defs)

lemma handoff_world_reached: "steps 7 (boot handoff_prog) = Inr handoff_world"
  by (simp add: eval_nat_numeral handoff_prog_def handoff_world_def run_defs)

lemma bound_world_reached: "steps 2 (boot bound_prog) = Inr bound_world"
  by (simp add: eval_nat_numeral bound_prog_def bound_world_def run_defs)

lemma once_world_reached: "steps 1 (boot once_prog) = Inr once_world"
  by (simp add: eval_nat_numeral once_prog_def once_world_def run_defs)

lemma popping_world_reached: "steps 3 (boot fifo_prog) = Inr popping_world"
  by (simp add: eval_nat_numeral fifo_prog_def popping_world_def run_defs)

lemma parked_world_reached: "steps 4 (boot fifo_prog) = Inr parked_world"
  by (simp add: eval_nat_numeral fifo_prog_def parked_world_def run_defs)

lemma handed_world_reached: "steps 5 (boot fifo_prog) = Inr handed_world"
  by (simp add: eval_nat_numeral fifo_prog_def handed_world_def run_defs)

lemma three_world_reached: "steps 3 (boot three_prog) = Inr three_world"
  by (simp add: eval_nat_numeral three_prog_def three_world_def run_defs)

lemma queued_world_reached: "steps 3 (boot queue_prog) = Inr queued_world"
  by (simp add: eval_nat_numeral queue_prog_def queued_world_def run_defs)

lemma forwarded_world_reached: "steps 9 (boot queue_prog) = Inr forwarded_world"
  by (simp add: eval_nat_numeral queue_prog_def forwarded_world_def run_defs fun_upd_twist)

lemma entered_world_reached: "steps 3 (boot await_prog) = Inr entered_world"
  by (simp add: eval_nat_numeral await_prog_def entered_world_def add_one_def run_defs)

lemma polling_world_reached: "steps 5 (boot await_prog) = Inr polling_world"
  by (simp add: eval_nat_numeral await_prog_def polling_world_def add_one_def run_defs)

lemma ready_world_reached: "steps 7 (boot await_prog) = Inr ready_world"
  by (simp add: eval_nat_numeral await_prog_def ready_world_def add_one_def run_defs)

lemma awaiting_world_reached: "steps 4 (boot await_prog) = Inr awaiting_world"
  by (simp add: eval_nat_numeral await_prog_def awaiting_world_def add_one_def run_defs)

lemma awaited_world_reached: "steps 10 (boot await_prog) = Inr awaited_world"
  by (simp add: eval_nat_numeral await_prog_def awaited_world_def add_one_def report_def run_defs)

lemma drained_world_reached: "steps 10 (boot fifo_prog) = Inr drained_world"
  by (simp add: eval_nat_numeral fifo_prog_def drained_world_def run_defs)


subsection \<open>Channel queries and clear\<close>

text \<open>
  Claim C8. \<open>clear()\<close>, \<open>size()\<close> and \<open>empty()\<close> work on the pending backlog only: none of
  them changes the bound consumer \<open>taker_\<close>, and \<open>size()\<close> and \<open>empty()\<close> leave the whole
  channel, hence the queue, as it was. The last three conjuncts say the same of the calls
  as they run inside a program: \<open>size\<close> and \<open>empty\<close> change nothing but the caller's
  position, and \<open>clear\<close> leaves every channel's consumer in place.
\<close>

theorem channel_queries_keep_binding:
  "chan_taker (Channel_clear ch) = chan_taker ch
   \<and> chan_list (Channel_clear ch) = []
   \<and> snd (Channel_size ch) = ch
   \<and> fst (Channel_size ch) = length (chan_list ch)
   \<and> snd (Channel_empty ch) = ch
   \<and> fst (Channel_empty ch) = (chan_list ch = [])
   \<and> exec (Size c kn) fr w = Inr (w\<lparr>running := Ctx (kn (length (chan_list (channels w c)))) fr\<rparr>)
   \<and> exec (Empty c kb) fr w = Inr (w\<lparr>running := Ctx (kb (chan_list (channels w c) = [])) fr\<rparr>)
   \<and> (\<exists>w1. exec (Clear c k) fr w = Inr w1
          \<and> (\<forall>d. chan_taker (channels w1 d) = chan_taker (channels w d)))"
  by (simp add: Channel_clear_def Channel_size_def Channel_empty_def)

subsection \<open>The failure indicators of resume\<close>

text \<open>
  Claim C1. Called from the host context (\<open>current = 0\<close>, the contract of \<open>resume\<close>; the
  assertion at its head fails otherwise), \<open>resume(id)\<close> returns \<open>-1\<close> when the table slot of
  \<open>id\<close> is empty and \<open>-2\<close> when the routine in the slot has its completion flag set. In
  both cases there is no context transfer and nothing changes: the state after the call
  is the state before it, with the caller continuing on the value returned. A slot is the
  table entry of an identifier within the table; identifiers outside the table are the
  matter of claim C9.
\<close>

theorem resume_failure_indicators:
  assumes "current (ordinator w) = 0"
  shows "(slot (ordinator w) rid = Inr None \<longrightarrow>
            resume rid ret w = Inr (Returned (- 1))
            \<and> exec (Resume rid k) fr w = Inr (w\<lparr>running := Ctx (k (- 1)) fr\<rparr>))
       \<and> (\<forall>a. slot (ordinator w) rid = Inr (Some a) \<and> a < length (heap w)
                \<and> finished (heap w ! a) \<longrightarrow>
            resume rid ret w = Inr (Returned (- 2))
            \<and> exec (Resume rid k) fr w = Inr (w\<lparr>running := Ctx (k (- 2)) fr\<rparr>))"
  using assms by (simp add: resume_def deref_def)

text \<open>
  In \<open>demo_world\<close> the host is running, slot 2 is empty (its routine was destroyed) and
  slot 1 holds a finished routine.
\<close>

theorem resume_failure_indicators_witness:
  "current (ordinator demo_world) = 0
   \<and> slot (ordinator demo_world) 2 = Inr None
   \<and> resume 2 (Ctx Return None) demo_world = Inr (Returned (- 1))
   \<and> exec (Resume 2 (\<lambda>r. Return)) None demo_world = Inr (demo_world\<lparr>running := Ctx Return None\<rparr>)
   \<and> slot (ordinator demo_world) 1 = Inr (Some 0)
   \<and> finished (heap demo_world ! 0)
   \<and> resume 1 (Ctx Return None) demo_world = Inr (Returned (- 2))
   \<and> exec (Resume 1 (\<lambda>r. Return)) None demo_world = Inr (demo_world\<lparr>running := Ctx Return None\<rparr>)"
proof -
  have h: "current (ordinator demo_world) = 0"
    by (simp add: demo_world_def)
  have s2: "slot (ordinator demo_world) 2 = Inr None"
    by (simp add: demo_world_def slot_def in_table_def)
  have s1: "slot (ordinator demo_world) 1 = Inr (Some 0)"
    by (simp add: demo_world_def slot_def in_table_def)
  have f: "0 < length (heap demo_world) \<and> finished (heap demo_world ! 0)"
    by (simp add: demo_world_def)
  from resume_failure_indicators [OF h, where rid = 2 and ret = "Ctx Return None"
      and k = "\<lambda>r. Return" and fr = None]
    resume_failure_indicators [OF h, where rid = 1 and ret = "Ctx Return None"
      and k = "\<lambda>r. Return" and fr = None]
  show ?thesis using h s1 s2 f by simp
qed

subsection \<open>Table lookups are unchecked\<close>

lemma unat_minus_one_zero: "unat (0 - 1 :: 32 word) = 4294967295"
  by (simp add: unsigned_minus_1_eq_mask mask_eq_exp_minus_1)

lemma in_table_range:
  assumes "length (routines od) < 2 ^ 32"
  shows "in_table od rid = (1 \<le> unat rid \<and> unat rid \<le> length (routines od))"
proof (cases "rid = 0")
  case True
  then show ?thesis using assms unat_minus_one_zero by (simp add: in_table_def)
next
  case False
  then have "unat (rid - 1) = unat rid - 1" by (simp add: unat_minus_one)
  moreover from False have "0 < unat rid" by (simp add: unat_gt_0)
  ultimately show ?thesis by (auto simp: in_table_def)
qed

lemma resume_not_found:
  assumes "current (ordinator w) = 0"
  shows "(resume rid ret w = Inr (Returned (- 1))) = (slot (ordinator w) rid = Inr None)"
  using assms
  by (auto simp: resume_def Let_def split: if_splits sum.splits option.splits)

text \<open>
  Claim C9 ends: so the "not found" indicator of \<open>resume\<close> is produced only for in-range
  identifiers whose slot is empty, not for out-of-range identifiers. \<open>three_world\<close> has a
  table of three slots, all occupied, in memory that reads as null pointers behind the
  table. There \<open>resume(4)\<close> reads the null pointer behind the table and returns \<open>-1\<close>, and
  \<open>destroy(4)\<close> fails its assertion on the same pointer.
\<close>

theorem stray_read_gives_not_found:
  "steps 3 (boot three_prog) = Inr three_world
   \<and> length (routines (ordinator three_world)) = 3
   \<and> current (ordinator three_world) = 0
   \<and> unat (4 :: routine_t) = 4
   \<and> resume 4 (Ctx Return None) three_world = Inr (Returned (- 1))
   \<and> destroy 4 three_world = Inl AssertFailed"
proof -
  have u: "unat (4 :: routine_t) = 4" and v: "unat (4 - 1 :: routine_t) = 3"
    by simp_all
  have t: "length (routines (ordinator three_world)) = 3
           \<and> current (ordinator three_world) = 0"
    by (simp add: three_world_def)
  have s: "slot (ordinator three_world) 4 = Inr None"
    by (simp add: three_world_def slot_def in_table_def zeroed_def)
  have r: "resume 4 (Ctx Return None) three_world = Inr (Returned (- 1))"
    using s t by (simp add: resume_def)
  have d: "destroy 4 three_world = Inl AssertFailed"
    using s by (simp add: destroy_def)
  from three_world_reached u t r d show ?thesis by blast
qed

text \<open>
  Claim C9, amended. \<open>resume(id)\<close>, \<open>destroy(id)\<close> and \<open>yield()\<close> read the table at \<open>id - 1\<close>
  with no bounds check. For a table of fewer than \<open>2^32\<close> slots the read is inside the
  table exactly when \<open>1 \<le> id \<le>\<close> the number of slots, and then yields the table entry. For
  \<open>id = 0\<close> (where \<open>id - 1\<close> wraps) or \<open>id\<close> past the table the read is outside the table and
  yields what lies behind the table, whatever the table holds. All three functions go by
  the value read: \<open>resume\<close>, called from the host, returns \<open>-1\<close> exactly when the pointer read
  is null, inside the table or not; on a null pointer \<open>destroy\<close> and \<open>yield\<close> (for
  \<open>id = current\<close>) fail their assertion; and a read that faults ends all three.
\<close>

theorem table_lookup_unchecked:
  assumes "length (routines (ordinator w)) < 2 ^ 32"
  shows "(in_table (ordinator w) rid
            = (1 \<le> unat rid \<and> unat rid \<le> length (routines (ordinator w))))
       \<and> (in_table (ordinator w) rid \<longrightarrow>
            slot (ordinator w) rid = Inr (routines (ordinator w) ! (unat rid - 1)))
       \<and> (rid = 0 \<or> length (routines (ordinator w)) < unat rid \<longrightarrow>
            slot (ordinator w) rid = beyond (ordinator w) (unat (rid - 1)))
       \<and> (current (ordinator w) = 0 \<longrightarrow>
            (resume rid ret w = Inr (Returned (- 1))) = (slot (ordinator w) rid = Inr None))
       \<and> (slot (ordinator w) rid = Inr None \<longrightarrow>
            destroy rid w = Inl AssertFailed
            \<and> (current (ordinator w) = rid \<longrightarrow> yield ret w = Inl AssertFailed))
       \<and> (\<forall>e. slot (ordinator w) rid = Inl e \<longrightarrow>
            destroy rid w = Inl e
            \<and> (current (ordinator w) = 0 \<longrightarrow> resume rid ret w = Inl e)
            \<and> (current (ordinator w) = rid \<longrightarrow> yield ret w = Inl e))"
proof -
  note r = in_table_range [OF assms, of rid]
  have b: "in_table (ordinator w) rid \<longrightarrow>
            slot (ordinator w) rid = Inr (routines (ordinator w) ! (unat rid - 1))"
  proof
    assume i: "in_table (ordinator w) rid"
    with r have "rid \<noteq> 0" by auto
    then have "unat (rid - 1) = unat rid - 1" by (simp add: unat_minus_one)
    with i show "slot (ordinator w) rid = Inr (routines (ordinator w) ! (unat rid - 1))"
      by (simp add: slot_def)
  qed
  have c: "rid = 0 \<or> length (routines (ordinator w)) < unat rid \<longrightarrow>
            slot (ordinator w) rid = beyond (ordinator w) (unat (rid - 1))"
  proof
    assume "rid = 0 \<or> length (routines (ordinator w)) < unat rid"
    with r have "\<not> in_table (ordinator w) rid" by (auto simp: unat_gt_0)
    then show "slot (ordinator w) rid = beyond (ordinator w) (unat (rid - 1))"
      by (simp add: slot_def)
  qed
  have d: "current (ordinator w) = 0 \<longrightarrow>
            (resume rid ret w = Inr (Returned (- 1))) = (slot (ordinator w) rid = Inr None)"
    using resume_not_found [of w rid ret] by blast
  have e: "slot (ordinator w) rid = Inr None \<longrightarrow>
            destroy rid w = Inl AssertFailed
            \<and> (current (ordinator w) = rid \<longrightarrow> yield ret w = Inl AssertFailed)"
    by (simp add: destroy_def yield_def Let_def)
  have f: "\<forall>e. slot (ordinator w) rid = Inl e \<longrightarrow>
            destroy rid w = Inl e
            \<and> (current (ordinator w) = 0 \<longrightarrow> resume rid ret w = Inl e)
            \<and> (current (ordinator w) = rid \<longrightarrow> yield ret w = Inl e)"
    by (simp add: destroy_def resume_def yield_def Let_def)
  from r b c d e f show ?thesis by blast
qed

text \<open>
  In \<open>three_world\<close> identifier 2 is inside the table and 4 is not; the read for 4 finds
  the null pointer behind the table, and a fault when the memory there cannot be read.
  In \<open>demo_world\<close> slot 2 is inside the table and empty.
\<close>

theorem table_lookup_unchecked_witness:
  "length (routines (ordinator three_world)) < 2 ^ 32
   \<and> current (ordinator three_world) = 0
   \<and> in_table (ordinator three_world) 2
   \<and> slot (ordinator three_world) 2 = Inr (Some 1)
   \<and> length (routines (ordinator three_world)) < unat (4 :: routine_t)
   \<and> \<not> in_table (ordinator three_world) 4
   \<and> slot (ordinator three_world) 4 = Inr None
   \<and> resume 4 (Ctx Return None) three_world = Inr (Returned (- 1))
   \<and> destroy 4 three_world = Inl AssertFailed
   \<and> slot (ordinator three_world\<lparr>beyond := (\<lambda>i. Inl Fault)\<rparr>) 0 = Inl Fault
   \<and> resume 0 (Ctx Return None)
        (three_world\<lparr>ordinator := ordinator three_world\<lparr>beyond := (\<lambda>i. Inl Fault)\<rparr>\<rparr>)
       = Inl Fault
   \<and> length (routines (ordinator demo_world)) < 2 ^ 32
   \<and> current (ordinator demo_world) = 0
   \<and> in_table (ordinator demo_world) 2
   \<and> slot (ordinator demo_world) 2 = Inr None
   \<and> resume 2 (Ctx Return None) demo_world = Inr (Returned (- 1))"
proof -
  let ?f = "three_world\<lparr>ordinator := ordinator three_world\<lparr>beyond := (\<lambda>i. Inl Fault)\<rparr>\<rparr>"
  have h: "length (routines (ordinator three_world)) < 2 ^ 32"
    and hf: "length (routines (ordinator ?f)) < 2 ^ 32"
    and hd: "length (routines (ordinator demo_world)) < 2 ^ 32"
    by (simp_all add: three_world_def demo_world_def)
  have c: "current (ordinator three_world) = 0 \<and> current (ordinator ?f) = 0
           \<and> current (ordinator demo_world) = 0"
    by (simp add: three_world_def demo_world_def)
  have l: "length (routines (ordinator three_world)) < unat (4 :: routine_t)"
    by (simp add: three_world_def)
  have s2: "slot (ordinator three_world) 2 = Inr (Some 1)"
    by (simp add: three_world_def slot_def in_table_def)
  have sf: "slot (ordinator three_world\<lparr>beyond := (\<lambda>i. Inl Fault)\<rparr>) 0 = Inl Fault"
    by (simp add: three_world_def slot_def in_table_def unsigned_minus_1_eq_mask
        mask_eq_exp_minus_1)
  have of: "ordinator ?f = ordinator three_world\<lparr>beyond := (\<lambda>i. Inl Fault)\<rparr>"
    by simp
  have z: "beyond (ordinator three_world) (unat (4 - 1 :: routine_t)) = Inr None"
    by (simp add: three_world_def zeroed_def)
  have sd: "slot (ordinator demo_world) 2 = Inr None"
    by (simp add: demo_world_def slot_def in_table_def)
  note t2 = table_lookup_unchecked [OF h, where rid = 2 and ret = "Ctx Return None"]
  note t4 = table_lookup_unchecked [OF h, where rid = 4 and ret = "Ctx Return None"]
  note tf = table_lookup_unchecked [OF hf, where rid = 0 and ret = "Ctx Return None"]
  note td = table_lookup_unchecked [OF hd, where rid = 2 and ret = "Ctx Return None"]
  from t2 have i2: "in_table (ordinator three_world) 2"
    by (simp add: three_world_def)
  from t4 l have n4: "\<not> in_table (ordinator three_world) 4"
    by simp
  from t4 l z have s4: "slot (ordinator three_world) 4 = Inr None"
    by simp
  from t4 c s4 have r4: "resume 4 (Ctx Return None) three_world = Inr (Returned (- 1))"
    by blast
  from t4 s4 have d4: "destroy 4 three_world = Inl AssertFailed"
    by blast
  from tf c sf of have rf: "resume 0 (Ctx Return None) ?f = Inl Fault"
    by metis
  from td have id: "in_table (ordinator demo_world) 2"
    by (simp add: demo_world_def)
  from td c sd have rd: "resume 2 (Ctx Return None) demo_world = Inr (Returned (- 1))"
    by blast
  from h hd c l s2 sf sd i2 n4 s4 r4 d4 rf id rd show ?thesis by blast
qed

subsection \<open>What entry does when the body returns\<close>

text \<open>
  Claim C10. When the body of a routine returns into \<open>entry\<close> (whose locals are the
  identifier \<open>rid\<close> and the pointer \<open>a\<close>), the next thing that happens sets the completion
  flag of that routine, resets \<open>current\<close> to 0, appends \<open>rid\<close> to the free-list and leaves
  the table as it is. So if no \<open>destroy\<close> has emptied the slot (it still holds \<open>a\<close>), the
  identifier is afterwards on the free-list while its slot holds the finished routine.
  Control continues in the context saved in \<open>ordinator.ctx\<close>.
\<close>

theorem entry_recycles_occupied_slot:
  assumes "running w = Ctx Return (Some (rid, a))"
      and "slot (ordinator w) rid = Inr (Some a)"
      and "a < length (heap w)"
      and "Ordinator.ctx (ordinator w) = Some h"
  shows "\<exists>w1. step w = Inr w1
       \<and> finished (heap w1 ! a)
       \<and> current (ordinator w1) = 0
       \<and> indexes (ordinator w1) = indexes (ordinator w) @ [rid]
       \<and> routines (ordinator w1) = routines (ordinator w)
       \<and> slot (ordinator w1) rid = Inr (Some a)
       \<and> rid \<in> set (indexes (ordinator w1))
       \<and> running w1 = h"
  using assms by (auto simp: step_def entry_end_def deref_def slot_def in_table_def split: if_splits)

text \<open>
  In \<open>finishing_world\<close> the body of routine 1 (at address 0) has just returned; one more
  call gives \<open>recycle_world\<close>, where 1 is on the free-list and slot 1 is still occupied.
\<close>

theorem entry_recycles_occupied_slot_witness:
  "running finishing_world = Ctx Return (Some (1, 0))
   \<and> slot (ordinator finishing_world) 1 = Inr (Some 0)
   \<and> 0 < length (heap finishing_world)
   \<and> Ordinator.ctx (ordinator finishing_world) = Some (Ctx (Create Return (\<lambda>b. Return)) None)
   \<and> step finishing_world = Inr recycle_world
   \<and> finished (heap recycle_world ! 0)
   \<and> indexes (ordinator recycle_world) = [1]
   \<and> slot (ordinator recycle_world) 1 = Inr (Some 0)"
proof -
  have r: "running finishing_world = Ctx Return (Some (1, 0))"
    by (simp add: finishing_world_def)
  have s: "slot (ordinator finishing_world) 1 = Inr (Some 0)"
    by (simp add: finishing_world_def slot_def in_table_def)
  have l: "0 < length (heap finishing_world)"
    by (simp add: finishing_world_def)
  have c: "Ordinator.ctx (ordinator finishing_world) = Some (Ctx (Create Return (\<lambda>b. Return)) None)"
    by (simp add: finishing_world_def)
  have e: "step finishing_world = Inr recycle_world"
    by (simp add: finishing_world_def recycle_world_def step_def entry_end_def deref_def)
  have f: "finished (heap recycle_world ! 0)
           \<and> indexes (ordinator recycle_world) = [1]
           \<and> slot (ordinator recycle_world) 1 = Inr (Some 0)"
    by (simp add: recycle_world_def slot_def in_table_def)
  from entry_recycles_occupied_slot [OF r s l c] e r s l c f
  show ?thesis by blast
qed

subsection \<open>Identifiers issued by create\<close>

lemma create_fresh:
  assumes "indexes (ordinator w) = []"
  shows "\<exists>w1. create f w = Inr (of_nat (Suc (length (routines (ordinator w)))), w1)
      \<and> indexes (ordinator w1) = []
      \<and> length (routines (ordinator w1)) = Suc (length (routines (ordinator w)))"
  using assms by (simp add: create_def Let_def)

lemma creates_fresh:
  assumes "indexes (ordinator w) = []"
  shows "\<exists>w1. creates fs w =
            Inr (map of_nat [Suc (length (routines (ordinator w)))
                              ..< Suc (length (routines (ordinator w)) + length fs)], w1)
      \<and> indexes (ordinator w1) = []
      \<and> length (routines (ordinator w1)) = length (routines (ordinator w)) + length fs"
  using assms
proof (induction fs arbitrary: w)
  case Nil
  then show ?case by simp
next
  case (Cons f fs)
  let ?n = "length (routines (ordinator w))"
  from create_fresh [OF Cons.prems, of f] obtain w1 where
    c: "create f w = Inr (of_nat (Suc ?n), w1)"
    and i: "indexes (ordinator w1) = []"
    and l: "length (routines (ordinator w1)) = Suc ?n"
    by blast
  from Cons.IH [OF i] obtain w2 where
    d: "creates fs w1 =
          Inr (map of_nat [Suc (length (routines (ordinator w1)))
                            ..< Suc (length (routines (ordinator w1)) + length fs)], w2)"
    and i2: "indexes (ordinator w2) = []"
    and l2: "length (routines (ordinator w2)) = length (routines (ordinator w1)) + length fs"
    by blast
  have e: "[Suc ?n ..< Suc (?n + length (f # fs))]
             = Suc ?n # [Suc (Suc ?n) ..< Suc (Suc ?n + length fs)]"
    by (simp add: upt_rec)
  have "creates (f # fs) w =
          Inr (of_nat (Suc ?n) # map of_nat [Suc (Suc ?n) ..< Suc (Suc ?n + length fs)], w2)"
    using c d unfolding l by (simp del: upt_Suc)
  then have "creates (f # fs) w = Inr (map of_nat [Suc ?n ..< Suc (?n + length (f # fs))], w2)"
    unfolding e by (simp del: upt_Suc)
  moreover have "length (routines (ordinator w2)) = ?n + length (f # fs)"
    using l2 l by simp
  ultimately show ?case using i2 by blast
qed

lemma unat_map_of_nat:
  assumes "n \<le> 2 ^ 32"
  shows "map unat (map of_nat [m ..< n] :: routine_t list) = [m ..< n]"
proof -
  have "unat (of_nat k :: routine_t) = k" if "k \<in> set [m ..< n]" for k
    using that assms by (simp add: unat_of_nat)
  then have "map (\<lambda>k. unat (of_nat k :: routine_t)) [m ..< n] = [m ..< n]"
    by (rule map_idI)
  then show ?thesis by (simp add: comp_def)
qed

text \<open>
  Claim C6. Starting from an empty free-list, consecutive \<open>create\<close> calls (no \<open>destroy\<close> in
  between) all succeed, and the identifiers they return are, read as numbers, the table
  sizes \<open>n + 1, n + 2, \<dots>\<close> reached one after the other, where \<open>n\<close> is the size at the start;
  so they are pairwise distinct and strictly increasing. The sizes stay below \<open>2^32\<close>, the
  range of \<open>routine_t\<close>.
\<close>

theorem create_ids_increase:
  assumes "indexes (ordinator w) = []"
      and "length (routines (ordinator w)) + length fs < 2 ^ 32"
  shows "\<exists>rids w1. creates fs w = Inr (rids, w1)
       \<and> map unat rids = [Suc (length (routines (ordinator w)))
                             ..< Suc (length (routines (ordinator w)) + length fs)]
       \<and> distinct rids
       \<and> sorted_wrt (<) rids
       \<and> length (routines (ordinator w1)) = length (routines (ordinator w)) + length fs"
proof -
  let ?n = "length (routines (ordinator w))"
  let ?rids = "map of_nat [Suc ?n ..< Suc (?n + length fs)] :: routine_t list"
  from creates_fresh [OF assms(1), of fs] obtain w1 where
    c: "creates fs w = Inr (?rids, w1)"
    and l: "length (routines (ordinator w1)) = ?n + length fs"
    by blast
  have u: "map unat ?rids = [Suc ?n ..< Suc (?n + length fs)]"
    using assms(2) by (intro unat_map_of_nat) simp
  have "distinct (map unat ?rids)" unfolding u by (rule distinct_upt)
  then have d: "distinct ?rids" by (rule distinct_map [THEN iffD1, THEN conjunct1])
  have "sorted_wrt (<) (map unat ?rids)" unfolding u by (rule sorted_wrt_upt)
  then have s: "sorted_wrt (<) ?rids"
    by (simp add: sorted_wrt_map word_less_nat_alt del: map_map)
  from c u d s l show ?thesis by blast
qed

text \<open>Three routines created on a fresh thread get the identifiers 1, 2, 3.\<close>

theorem create_ids_increase_witness:
  "indexes (ordinator (boot (Return :: int prog))) = []
   \<and> length (routines (ordinator (boot (Return :: int prog)))) + length [Return, Yield Return, Return :: int prog] < 2 ^ 32
   \<and> (\<exists>w1. creates [Return, Yield Return, Return] (boot (Return :: int prog)) = Inr ([1, 2, 3], w1))"
proof -
  have i: "indexes (ordinator (boot (Return :: int prog))) = []"
    by (simp add: boot_def new_Ordinator_def)
  have l: "length (routines (ordinator (boot (Return :: int prog))))
            + length [Return, Yield Return, Return :: int prog] < 2 ^ 32"
    by (simp add: boot_def new_Ordinator_def)
  from create_ids_increase [OF i l] i l
  show ?thesis by (simp add: boot_def new_Ordinator_def create_def Let_def)
qed

subsection \<open>create after a routine has run to completion\<close>

text \<open>
  Claim C2 says that \<open>create\<close> never fails in a state reached through the public
  operations, and that its assertion (a slot taken from the free-list is empty) never
  fires. The run of \<open>recycle_prog\<close> reaches such a state in four calls: routine 1 was
  created and resumed, and its body returned, so \<open>entry\<close> put 1 on the free-list with slot
  1 still holding the routine. There the next \<open>create\<close> takes 1 from the free-list and its
  assertion fails. Destroying the finished routine first does not help: \<open>destroy\<close> puts
  1 on the free-list a second time, so in the run of \<open>redestroy_prog\<close> the first \<open>create\<close>
  after it reuses slot 1 and the second one fails in the same way.
\<close>

theorem create_assertion_fires_after_completion:
  "steps 4 (boot recycle_prog) = Inr recycle_world
   \<and> indexes (ordinator recycle_world) = [1]
   \<and> slot (ordinator recycle_world) 1 = Inr (Some 0)
   \<and> create Return recycle_world = Inl AssertFailed
   \<and> steps 5 (boot recycle_prog) = Inl AssertFailed
   \<and> steps 6 (boot redestroy_prog) = Inr redestroy_world
   \<and> indexes (ordinator redestroy_world) = [1]
   \<and> slot (ordinator redestroy_world) 1 = Inr (Some 1)
   \<and> create Return redestroy_world = Inl AssertFailed
   \<and> steps 7 (boot redestroy_prog) = Inl AssertFailed"
  by (simp add: eval_nat_numeral recycle_prog_def recycle_world_def
        redestroy_prog_def redestroy_world_def run_defs)

subsection \<open>The completion flag\<close>












lemma wait_for_frame:
  assumes "wait_for i w = Inr (r, w1)"
  shows "heap w1 = heap w \<and> ordinator w1 = ordinator w \<and> channels w1 = channels w
       \<and> trace w1 = trace w \<and> running w1 = running w
       \<and> length (futures w1) = length (futures w)
       \<and> (\<forall>j. outcome_of (futures w1 ! j) = outcome_of (futures w ! j))"
  using assms
  by (auto simp: wait_for_def nth_list_update split: if_splits nat.splits)

lemma await_loop_cases:
  assumes "await_loop i k fr w = Inr w1"
  obtains w2 where "wait_for i w = Inr (True, w2)"
      and "w1 = w2\<lparr>running := Ctx (k (future_get i w2)) fr\<rparr>"
    | w2 where "wait_for i w = Inr (False, w2)" and "current_routine w2 \<noteq> 0"
      and "yield (Ctx (AwaitPoll i k) fr) w2 = Inr w1"
    | w2 where "wait_for i w = Inr (False, w2)" and "current_routine w2 = 0"
      and "w1 = w2\<lparr>running := Ctx (AwaitPoll i k) fr\<rparr>"
proof (cases "wait_for i w")
  case (Inl e)
  with assms show ?thesis by (simp add: await_loop_def)
next
  case (Inr p)
  obtain r w2 where p: "p = (r, w2)" by (cases p)
  show ?thesis
  proof (cases r)
    case True
    with assms Inr p that(1) [of w2] show ?thesis by (simp add: await_loop_def)
  next
    case False
    show ?thesis
    proof (cases "current_routine w2 = 0")
      case True
      with assms Inr p False that(3) [of w2] show ?thesis by (simp add: await_loop_def)
    next
      case nz: False
      with assms Inr p False that(2) [of w2] show ?thesis by (simp add: await_loop_def)
    qed
  qed
qed








subsection \<open>push and the bound consumer\<close>

lemma resume_quiet:
  assumes "resume rid ret w = Inr (Switched w1)"
  shows "trace w1 = trace w \<and> channels w1 = channels w"
  using assms
  by (auto simp: resume_def Let_def split: if_splits sum.splits option.splits)

lemma push_appends:
  assumes "Channel_push c v ret w = Inr w1"
  shows "channels w1 = channels (push_back c v w) \<and> trace w1 = trace (push_back c v w)
       \<and> chan_list (channels w1 c) = chan_list (channels w c) @ [v]"
proof -
  let ?w = "push_back c v w"
  have "trace w1 = trace ?w \<and> channels w1 = channels ?w"
    using assms resume_quiet [of "chan_taker (channels ?w c)" ret ?w w1]
    by (auto simp: Channel_push_def Let_def split: if_splits sum.splits resumed.splits)
  then show ?thesis by (simp add: push_back_def)
qed

text \<open>
  Claim C3 says that \<open>push\<close> resumes a bound consumer other than the caller before it
  returns, also when \<open>push\<close> is called from inside a running routine. In \<open>handoff_world\<close>
  routine 1 is bound to channel 0 and suspended inside \<open>pop\<close> on the empty queue, and
  routine 2 is running (\<open>current = 2\<close>) and calls \<open>push\<close>. \<open>push\<close> takes the branch that is
  there for a caller other than the consumer and calls \<open>resume\<close>, whose assertion
  \<open>current == 0\<close> fails: the consumer is not resumed and the run of \<open>handoff_prog\<close> ends
  there.
\<close>

theorem push_inside_routine_aborts:
  "steps 7 (boot handoff_prog) = Inr handoff_world
   \<and> running handoff_world = Ctx (Push 0 7 Return) (Some (2, 1))
   \<and> current (ordinator handoff_world) = 2
   \<and> chan_taker (channels handoff_world 0) = 1
   \<and> chan_list (channels handoff_world 0) = []
   \<and> step handoff_world = Inl AssertFailed
   \<and> steps 8 (boot handoff_prog) = Inl AssertFailed"
  by (simp add: eval_nat_numeral handoff_prog_def handoff_world_def run_defs)

text \<open>
  What \<open>push\<close> does, case by case. Whenever it returns or hands control over, the value
  is at the tail of the queue. If no consumer is bound, or the bound consumer is the
  caller, it returns to its caller. If a consumer is bound and is not the caller, \<open>push\<close>
  calls \<open>resume\<close>:
  \<^item> called from inside a running routine (\<open>current \<noteq> 0\<close>), the assertion at the head of
    \<open>resume\<close> fails;
  \<^item> called from the host (\<open>current = 0\<close>) with the consumer an unfinished routine,
    control goes to the consumer (to \<open>entry\<close> if it has not run yet, to its saved context
    otherwise) while the caller's context \<open>ret\<close> is parked in \<open>ordinator.ctx\<close>, so the
    consumer runs before \<open>push\<close> returns;
  \<^item> and a consumer that was suspended inside \<open>pop\<close> on the then empty queue of this
    channel receives the value in its next call, with the caller still parked.
\<close>

lemma push_cases:
  "(\<forall>w1. Channel_push c v ret w = Inr w1 \<longrightarrow>
        chan_list (channels w1 c) = chan_list (channels w c) @ [v])
   \<and> (chan_taker (channels w c) = 0 \<or> chan_taker (channels w c) = current (ordinator w) \<longrightarrow>
        Channel_push c v ret w = Inr ((push_back c v w)\<lparr>running := ret\<rparr>))
   \<and> (chan_taker (channels w c) \<noteq> 0 \<and> chan_taker (channels w c) \<noteq> current (ordinator w)
        \<and> current (ordinator w) \<noteq> 0 \<longrightarrow>
        Channel_push c v ret w = Inl AssertFailed)
   \<and> (\<forall>a. current (ordinator w) = 0 \<and> chan_taker (channels w c) \<noteq> 0
          \<and> slot (ordinator w) (chan_taker (channels w c)) = Inr (Some a)
          \<and> a < length (heap w) \<and> \<not> finished (heap w ! a)
          \<and> stack (heap w ! a) = None \<longrightarrow>
        Channel_push c v ret w =
          Inr ((push_back c v w)
                 \<lparr>heap := (heap w)[a := (heap w ! a)\<lparr>stack := Some (stack_size (ordinator w)),
                                                     Routine.ctx := Some Entry\<rparr>],
                  ordinator := (ordinator w)\<lparr>current := chan_taker (channels w c),
                                             Ordinator.ctx := Some ret\<rparr>,
                  running := Entry\<rparr>))
   \<and> (\<forall>a cx. current (ordinator w) = 0 \<and> chan_taker (channels w c) \<noteq> 0
          \<and> slot (ordinator w) (chan_taker (channels w c)) = Inr (Some a)
          \<and> a < length (heap w) \<and> \<not> finished (heap w ! a)
          \<and> stack (heap w ! a) \<noteq> None \<and> Routine.ctx (heap w ! a) = Some cx \<longrightarrow>
        Channel_push c v ret w =
          Inr ((push_back c v w)
                 \<lparr>ordinator := (ordinator w)\<lparr>current := chan_taker (channels w c),
                                             Ordinator.ctx := Some ret\<rparr>,
                  running := cx\<rparr>)
        \<and> (\<forall>k fr. cx = Ctx (PopLoop c k) fr \<and> chan_list (channels w c) = [] \<longrightarrow>
             (\<exists>w3. steps 2 (w\<lparr>running := Ctx (Push c v p) fr0\<rparr>) = Inr w3
                \<and> running w3 = Ctx (k v) fr
                \<and> chan_list (channels w3 c) = []
                \<and> trace w3 = trace w @ [Pushed c v, Popped c v]
                \<and> Ordinator.ctx (ordinator w3) = Some (Ctx p fr0))))"
proof -
  have a: "\<forall>w1. Channel_push c v ret w = Inr w1 \<longrightarrow>
        chan_list (channels w1 c) = chan_list (channels w c) @ [v]"
    using push_appends [of c v ret w] by blast
  have b: "chan_taker (channels w c) = 0 \<or> chan_taker (channels w c) = current (ordinator w) \<longrightarrow>
        Channel_push c v ret w = Inr ((push_back c v w)\<lparr>running := ret\<rparr>)"
    by (auto simp: Channel_push_def push_back_def current_routine_def Let_def)
  have d: "chan_taker (channels w c) \<noteq> 0 \<and> chan_taker (channels w c) \<noteq> current (ordinator w)
        \<and> current (ordinator w) \<noteq> 0 \<longrightarrow>
        Channel_push c v ret w = Inl AssertFailed"
    by (simp add: Channel_push_def push_back_def current_routine_def resume_def Let_def)
  have g: "Channel_push c v ret w =
          Inr ((push_back c v w)
                 \<lparr>heap := (heap w)[a := (heap w ! a)\<lparr>stack := Some (stack_size (ordinator w)),
                                                     Routine.ctx := Some Entry\<rparr>],
                  ordinator := (ordinator w)\<lparr>current := chan_taker (channels w c),
                                             Ordinator.ctx := Some ret\<rparr>,
                  running := Entry\<rparr>)"
    if "current (ordinator w) = 0" and "chan_taker (channels w c) \<noteq> 0"
      and "slot (ordinator w) (chan_taker (channels w c)) = Inr (Some a)"
      and "a < length (heap w)" and "\<not> finished (heap w ! a)"
      and "stack (heap w ! a) = None"
    for a
    using that
    by (auto simp: Channel_push_def push_back_def current_routine_def resume_def deref_def Let_def)
  have e: "Channel_push c v ret w =
          Inr ((push_back c v w)
                 \<lparr>ordinator := (ordinator w)\<lparr>current := chan_taker (channels w c),
                                             Ordinator.ctx := Some ret\<rparr>,
                  running := cx\<rparr>)"
    if "current (ordinator w) = 0" and "chan_taker (channels w c) \<noteq> 0"
      and "slot (ordinator w) (chan_taker (channels w c)) = Inr (Some a)"
      and "a < length (heap w)" and "\<not> finished (heap w ! a)"
      and "stack (heap w ! a) \<noteq> None" and "Routine.ctx (heap w ! a) = Some cx"
    for a cx
    using that
    by (auto simp: Channel_push_def push_back_def current_routine_def resume_def deref_def Let_def)
  have f: "\<exists>w3. steps 2 (w\<lparr>running := Ctx (Push c v p) fr0\<rparr>) = Inr w3
                \<and> running w3 = Ctx (k v) fr
                \<and> chan_list (channels w3 c) = []
                \<and> trace w3 = trace w @ [Pushed c v, Popped c v]
                \<and> Ordinator.ctx (ordinator w3) = Some (Ctx p fr0)"
    if "current (ordinator w) = 0" and "chan_taker (channels w c) \<noteq> 0"
      and "slot (ordinator w) (chan_taker (channels w c)) = Inr (Some a)"
      and "a < length (heap w)" and "\<not> finished (heap w ! a)"
      and "stack (heap w ! a) \<noteq> None" and "Routine.ctx (heap w ! a) = Some cx"
      and "cx = Ctx (PopLoop c k) fr" and "chan_list (channels w c) = []"
    for a cx k fr
  proof -
    let ?u = "w\<lparr>running := Ctx (Push c v p) fr0\<rparr>"
    have "step ?u = Channel_push c v (Ctx p fr0) ?u"
      by (simp add: step_def)
    also have "\<dots> = Inr ((push_back c v ?u)
                 \<lparr>ordinator := (ordinator ?u)\<lparr>current := chan_taker (channels ?u c),
                                              Ordinator.ctx := Some (Ctx p fr0)\<rparr>,
                  running := cx\<rparr>)"
      using that by (auto simp: Channel_push_def push_back_def current_routine_def
          resume_def deref_def Let_def)
    finally show ?thesis using that
      by (simp add: eval_nat_numeral step_def pop_loop_def push_back_def)
  qed
  from a b d g e f show ?thesis by blast
qed

text \<open>
  On a fresh thread nobody is bound to channel 0 and \<open>push\<close> just returns; in
  \<open>handoff_world\<close> a routine pushes to a channel bound to another one; in \<open>bound_world\<close>
  the host pushes to a channel bound to a routine that has not run yet; in
  \<open>parked_world\<close> the host pushes 10 to the channel whose consumer is suspended inside
  \<open>pop\<close>, and two calls later the consumer has the value.
\<close>

lemma push_cases_example:
  "chan_taker (channels (boot (Return :: int prog)) 0) = 0
   \<and> Channel_push 0 5 (Ctx Return None) (boot (Return :: int prog))
       = Inr ((push_back 0 5 (boot Return))\<lparr>running := Ctx Return None\<rparr>)
   \<and> chan_taker (channels handoff_world 0) = 1
   \<and> current (ordinator handoff_world) = 2
   \<and> Channel_push 0 7 (Ctx Return (Some (2, 1))) handoff_world = Inl AssertFailed
   \<and> current (ordinator bound_world) = 0
   \<and> chan_taker (channels bound_world 0) = 1
   \<and> slot (ordinator bound_world) 1 = Inr (Some 0)
   \<and> 0 < length (heap bound_world)
   \<and> \<not> finished (heap bound_world ! 0)
   \<and> stack (heap bound_world ! 0) = None
   \<and> (\<exists>w1. Channel_push 0 3 (Ctx Return None) bound_world = Inr w1
         \<and> running w1 = Entry
         \<and> current (ordinator w1) = 1
         \<and> Ordinator.ctx (ordinator w1) = Some (Ctx Return None)
         \<and> chan_list (channels w1 0) = [3])
   \<and> current (ordinator parked_world) = 0
   \<and> chan_taker (channels parked_world 0) = 1
   \<and> slot (ordinator parked_world) 1 = Inr (Some 0)
   \<and> 0 < length (heap parked_world)
   \<and> \<not> finished (heap parked_world ! 0)
   \<and> stack (heap parked_world ! 0) = Some STACK_LIMIT
   \<and> Routine.ctx (heap parked_world ! 0)
       = Some (Ctx (PopLoop 0 (\<lambda>x. Pop 0 (\<lambda>y. Return))) (Some (1, 0)))
   \<and> chan_list (channels parked_world 0) = []
   \<and> Channel_push 0 10 (Ctx (Push 0 11 Return) None) parked_world = Inr handed_world
   \<and> (\<exists>w3. steps 2 parked_world = Inr w3
         \<and> running w3 = Ctx (Pop 0 (\<lambda>y. Return)) (Some (1, 0))
         \<and> chan_list (channels w3 0) = []
         \<and> trace w3 = [Pushed 0 10, Popped 0 10]
         \<and> Ordinator.ctx (ordinator w3) = Some (Ctx (Push 0 11 Return) None))"
proof -
  have b: "chan_taker (channels (boot (Return :: int prog)) 0) = 0"
    by (simp add: boot_def new_Channel_def)
  have h: "chan_taker (channels handoff_world 0) = 1
           \<and> current (ordinator handoff_world) = 2"
    by (simp add: handoff_world_def)
  have n: "current (ordinator bound_world) = 0
           \<and> chan_taker (channels bound_world 0) = 1
           \<and> slot (ordinator bound_world) 1 = Inr (Some 0)
           \<and> 0 < length (heap bound_world)
           \<and> \<not> finished (heap bound_world ! 0)
           \<and> stack (heap bound_world ! 0) = None"
    by (simp add: bound_world_def slot_def in_table_def)
  have q: "current (ordinator parked_world) = 0
           \<and> chan_taker (channels parked_world 0) = 1
           \<and> slot (ordinator parked_world) 1 = Inr (Some 0)
           \<and> 0 < length (heap parked_world)
           \<and> \<not> finished (heap parked_world ! 0)
           \<and> stack (heap parked_world ! 0) = Some STACK_LIMIT
           \<and> Routine.ctx (heap parked_world ! 0)
               = Some (Ctx (PopLoop 0 (\<lambda>x. Pop 0 (\<lambda>y. Return))) (Some (1, 0)))
           \<and> chan_list (channels parked_world 0) = []"
    by (simp add: parked_world_def slot_def in_table_def)
  have u: "parked_world\<lparr>running := Ctx (Push 0 10 (Push 0 11 Return)) None\<rparr> = parked_world"
    by (simp add: parked_world_def)
  have t: "trace parked_world = []"
    by (simp add: parked_world_def)
  have r: "Channel_push 0 10 (Ctx (Push 0 11 Return) None) parked_world = Inr handed_world"
    by (simp add: parked_world_def handed_world_def Channel_push_def push_back_def
        current_routine_def resume_def slot_def in_table_def deref_def new_Channel_def Let_def)
  note i = push_cases
  from i [where w = "boot (Return :: int prog)" and c = 0 and v = 5 and ret = "Ctx Return None"] b
  have 1: "Channel_push 0 5 (Ctx Return None) (boot (Return :: int prog))
       = Inr ((push_back 0 5 (boot Return))\<lparr>running := Ctx Return None\<rparr>)"
    by blast
  from i [where w = handoff_world and c = 0 and v = 7 and ret = "Ctx Return (Some (2, 1))"] h
  have 2: "Channel_push 0 7 (Ctx Return (Some (2, 1))) handoff_world = Inl AssertFailed"
    by simp
  from i [where w = bound_world and c = 0 and v = 3 and ret = "Ctx Return None"] n
  have "Channel_push 0 3 (Ctx Return None) bound_world =
          Inr ((push_back 0 3 bound_world)
                 \<lparr>heap := (heap bound_world)
                     [0 := (heap bound_world ! 0)\<lparr>stack := Some (stack_size (ordinator bound_world)),
                                                   Routine.ctx := Some Entry\<rparr>],
                  ordinator := (ordinator bound_world)\<lparr>current := 1,
                                                       Ordinator.ctx := Some (Ctx Return None)\<rparr>,
                  running := Entry\<rparr>)"
    by simp
  then have 4: "\<exists>w1. Channel_push 0 3 (Ctx Return None) bound_world = Inr w1
         \<and> running w1 = Entry
         \<and> current (ordinator w1) = 1
         \<and> Ordinator.ctx (ordinator w1) = Some (Ctx Return None)
         \<and> chan_list (channels w1 0) = [3]"
    by (simp add: push_back_def bound_world_def)
  from i [where w = parked_world and c = 0 and v = 10 and ret = "Ctx (Push 0 11 Return) None"
      and p = "Push 0 11 Return" and ?fr0.0 = None] q
  have "\<exists>w3. steps 2 (parked_world\<lparr>running := Ctx (Push 0 10 (Push 0 11 Return)) None\<rparr>) = Inr w3
         \<and> running w3 = Ctx (Pop 0 (\<lambda>y. Return)) (Some (1, 0))
         \<and> chan_list (channels w3 0) = []
         \<and> trace w3 = trace parked_world @ [Pushed 0 10, Popped 0 10]
         \<and> Ordinator.ctx (ordinator w3) = Some (Ctx (Push 0 11 Return) None)"
    by simp
  then have 3: "\<exists>w3. steps 2 parked_world = Inr w3
         \<and> running w3 = Ctx (Pop 0 (\<lambda>y. Return)) (Some (1, 0))
         \<and> chan_list (channels w3 0) = []
         \<and> trace w3 = [Pushed 0 10, Popped 0 10]
         \<and> Ordinator.ctx (ordinator w3) = Some (Ctx (Push 0 11 Return) None)"
    unfolding u t by simp
  from b h n q r 1 2 3 4 show ?thesis by blast
qed

subsection \<open>Channel order\<close>

lemma pushed_append: "pushed c (es @ fs) = pushed c es @ pushed c fs"
  by (induction c es rule: pushed.induct) simp_all

lemma popped_append: "popped c (es @ fs) = popped c es @ popped c fs"
  by (induction c es rule: popped.induct) simp_all

lemma cleared_append: "cleared c (es @ fs) = (cleared c es \<or> cleared c fs)"
  by (induction c es rule: cleared.induct) auto

text \<open>The scheduler's own operations neither touch a channel nor add to the trace.\<close>

lemma yield_quiet:
  assumes "yield ret w = Inr w1"
  shows "trace w1 = trace w \<and> channels w1 = channels w"
  using assms
  by (auto simp: yield_def Let_def split: if_splits sum.splits option.splits)

lemma create_quiet:
  assumes "create f w = Inr (rid, w1)"
  shows "trace w1 = trace w \<and> channels w1 = channels w"
  using assms
  by (auto simp: create_def put_slot_def in_table_def Let_def split: list.splits sum.splits option.splits)

lemma destroy_quiet:
  assumes "destroy rid w = Inr w1"
  shows "trace w1 = trace w \<and> channels w1 = channels w"
  using assms
  by (auto simp: destroy_def put_slot_def in_table_def Let_def split: sum.splits option.splits)

lemma entry_begin_quiet:
  assumes "entry_begin w = Inr w1"
  shows "trace w1 = trace w \<and> channels w1 = channels w"
  using assms
  by (auto simp: entry_begin_def Let_def split: sum.splits option.splits)

lemma entry_end_quiet:
  assumes "entry_end rid a w = Inr w1"
  shows "trace w1 = trace w \<and> channels w1 = channels w"
  using assms
  by (auto simp: entry_end_def split: sum.splits option.splits)

lemma fifo_move_quiet:
  "trace w1 = trace w \<and> channels w1 = channels w \<Longrightarrow> fifo_move c w w1"
  by (simp add: fifo_move_def)

lemma push_fifo:
  assumes "Channel_push d v ret w = Inr w1"
  shows "fifo_move c w w1"
proof -
  let ?w = "push_back d v w"
  have "trace w1 = trace ?w \<and> channels w1 = channels ?w"
    using assms resume_quiet [of "chan_taker (channels ?w d)" ret ?w w1]
    by (auto simp: Channel_push_def Let_def split: if_splits sum.splits resumed.splits)
  then have "trace w1 = trace w @ [Pushed d v]"
    and "chan_list (channels w1 c)
           = (if d = c then chan_list (channels w c) @ [v] else chan_list (channels w c))"
    by (simp_all add: push_back_def)
  then show ?thesis unfolding fifo_move_def by (intro exI [of _ "[Pushed d v]"]) simp
qed

lemma touch_fifo:
  assumes "Channel_touch d ret w = Inr w1"
  shows "fifo_move c w w1"
proof -
  have "trace w1 = trace w \<and> channels w1 = channels w"
    using assms resume_quiet [of "chan_taker (channels w d)" ret w w1]
    by (auto simp: Channel_touch_def Let_def split: if_splits sum.splits resumed.splits)
  then show ?thesis by (rule fifo_move_quiet)
qed

lemma pop_loop_fifo:
  assumes "pop_loop d k fr w = Inr w1"
  shows "fifo_move c w w1"
proof (cases "chan_list (channels w d)")
  case Nil
  with assms have "yield (Ctx (PopLoop d k) fr) w = Inr w1" by (simp add: pop_loop_def)
  from yield_quiet [OF this] show ?thesis by (rule fifo_move_quiet)
next
  case (Cons x xs)
  with assms have "trace w1 = trace w @ [Popped d x]"
    and "chan_list (channels w1 c) = (if d = c then xs else chan_list (channels w c))"
    by (auto simp: pop_loop_def)
  then show ?thesis using Cons unfolding fifo_move_def
    by (intro exI [of _ "[Popped d x]"]) auto
qed

lemma pop_fifo:
  assumes "Channel_pop d k fr w = Inr w1"
  shows "fifo_move c w w1"
proof -
  let ?w = "if chan_taker (channels w d) = 0
            then w\<lparr>channels := (channels w)(d := (channels w d)\<lparr>chan_taker := current_routine w\<rparr>)\<rparr>
            else w"
  from assms have "pop_loop d k fr ?w = Inr w1" by (simp add: Channel_pop_def Let_def)
  from pop_loop_fifo [OF this, of c] have "fifo_move c ?w w1" .
  moreover have "trace ?w = trace w" and "chan_list (channels ?w c) = chan_list (channels w c)"
    by simp_all
  ultimately show ?thesis by (simp add: fifo_move_def)
qed

lemma await_loop_quiet:
  assumes "await_loop i k fr w = Inr w1"
  shows "trace w1 = trace w \<and> channels w1 = channels w"
  using assms
proof (cases rule: await_loop_cases)
  case (1 w2)
  from wait_for_frame [OF 1(1)] 1(2) show ?thesis by simp
next
  case (2 w2)
  from wait_for_frame [OF 2(1)] yield_quiet [OF 2(3)] show ?thesis by simp
next
  case (3 w2)
  from wait_for_frame [OF 3(1)] 3(3) show ?thesis by simp
qed

lemma await_quiet:
  assumes "await f x n k fr w = Inr w1"
  shows "trace w1 = trace w \<and> channels w1 = channels w"
proof -
  let ?w = "w\<lparr>futures := futures w @ [\<lparr>remaining = n, outcome_of = f x\<rparr>]\<rparr>"
  from assms have "await_loop (length (futures w)) k fr ?w = Inr w1"
    by (simp add: await_def launch_def)
  from await_loop_quiet [OF this] show ?thesis by simp
qed

lemma exec_fifo:
  assumes "exec p fr w = Inr w1"
  shows "fifo_move c w w1"
proof (cases p)
  case Return
  then show ?thesis using assms entry_end_quiet [of _ _ w w1]
    by (cases fr) (auto intro: fifo_move_quiet)
next
  case (Create f k)
  then show ?thesis using assms create_quiet [of f w]
    by (auto split: sum.splits prod.splits intro!: fifo_move_quiet)
next
  case (Destroy rid k)
  then show ?thesis using assms destroy_quiet [of rid w]
    by (auto split: sum.splits intro!: fifo_move_quiet)
next
  case (Resume rid k)
  then show ?thesis using assms resume_quiet [of rid "Ctx (k 0) fr" w w1]
    by (auto split: sum.splits resumed.splits intro!: fifo_move_quiet)
next
  case (Yield k)
  then show ?thesis using assms yield_quiet [of "Ctx k fr" w w1]
    by (auto intro!: fifo_move_quiet)
next
  case (Current k)
  then show ?thesis using assms by (auto intro!: fifo_move_quiet)
next
  case (Consume d rid k)
  then show ?thesis using assms by (auto simp: fifo_move_def Channel_consume_def)
next
  case (Push d v k)
  then show ?thesis using assms push_fifo [of d v "Ctx k fr" w w1 c] by simp
next
  case (Pop d k)
  then show ?thesis using assms pop_fifo [of d k fr w w1 c] by simp
next
  case (PopLoop d k)
  then show ?thesis using assms pop_loop_fifo [of d k fr w w1 c] by simp
next
  case (Clear d k)
  with assms have "trace w1 = trace w @ [Cleared d]"
    and "chan_list (channels w1 c) = (if d = c then [] else chan_list (channels w c))"
    by (auto simp: Channel_clear_def)
  then show ?thesis unfolding fifo_move_def by (intro exI [of _ "[Cleared d]"]) simp
next
  case (Touch d k)
  then show ?thesis using assms touch_fifo [of d "Ctx k fr" w w1 c] by simp
next
  case (Size d k)
  then show ?thesis using assms by (auto simp: fifo_move_def Channel_size_def)
next
  case (Empty d k)
  then show ?thesis using assms by (auto simp: fifo_move_def Channel_empty_def)
next
  case (Await f x n k)
  then show ?thesis using assms await_quiet [of f x n k fr w w1]
    by (auto intro!: fifo_move_quiet)
next
  case (AwaitPoll i k)
  then show ?thesis using assms await_loop_quiet [of i k fr w w1]
    by (auto intro!: fifo_move_quiet)
qed

lemma step_fifo:
  assumes "step w = Inr w1"
  shows "fifo_move c w w1"
proof (cases "running w")
  case Entry
  then show ?thesis using assms entry_begin_quiet [of w w1]
    by (auto simp: step_def intro!: fifo_move_quiet)
next
  case (Ctx p fr)
  then show ?thesis using assms exec_fifo [of p fr w w1 c] by (simp add: step_def)
qed

lemma fifo_move_trans:
  assumes "fifo_move c w w1" and "fifo_move c w1 w2"
  shows "fifo_move c w w2"
proof -
  from assms(1) obtain es where
    e: "trace w1 = trace w @ es"
    and f: "cleared c es
            \<or> chan_list (channels w c) @ pushed c es = popped c es @ chan_list (channels w1 c)"
    unfolding fifo_move_def by blast
  from assms(2) obtain fs where
    g: "trace w2 = trace w1 @ fs"
    and h: "cleared c fs
            \<or> chan_list (channels w1 c) @ pushed c fs = popped c fs @ chan_list (channels w2 c)"
    unfolding fifo_move_def by blast
  have t: "trace w2 = trace w @ (es @ fs)" using e g by simp
  have "cleared c (es @ fs) \<or>
        chan_list (channels w c) @ pushed c (es @ fs)
          = popped c (es @ fs) @ chan_list (channels w2 c)"
  proof (cases "cleared c es \<or> cleared c fs")
    case True
    then show ?thesis by (simp add: cleared_append)
  next
    case False
    with f h have
      a: "chan_list (channels w c) @ pushed c es = popped c es @ chan_list (channels w1 c)" and
      b: "chan_list (channels w1 c) @ pushed c fs = popped c fs @ chan_list (channels w2 c)"
      by auto
    have "chan_list (channels w c) @ pushed c (es @ fs)
          = (chan_list (channels w c) @ pushed c es) @ pushed c fs"
      by (simp add: pushed_append)
    also have "\<dots> = popped c es @ (chan_list (channels w1 c) @ pushed c fs)"
      unfolding a by simp
    also have "\<dots> = popped c (es @ fs) @ chan_list (channels w2 c)"
      unfolding b by (simp add: popped_append)
    finally show ?thesis by simp
  qed
  with t show ?thesis unfolding fifo_move_def by blast
qed

lemma steps_fifo:
  assumes "steps n w = Inr w1"
  shows "fifo_move c w w1"
  using assms
proof (induction n arbitrary: w)
  case 0
  then show ?case by (simp add: fifo_move_def)
next
  case (Suc n)
  then obtain w2 where s: "step w = Inr w2" and r: "steps n w2 = Inr w1"
    by (auto split: sum.splits)
  from step_fifo [OF s] Suc.IH [OF r] show ?case by (rule fifo_move_trans)
qed

lemma since_append:
  assumes "trace w1 = trace w @ es"
  shows "since w w1 = es"
  using assms by (simp add: since_def)

text \<open>What \<open>pop\<close> does on a queue that is not empty, and what a row of pops returns.\<close>

lemma pop_takes_head:
  assumes "chan_list (channels w c) = x # xs"
  shows "\<exists>w1. Channel_pop c k fr w = Inr w1
       \<and> running w1 = Ctx (k x) fr
       \<and> chan_list (channels w1 c) = xs
       \<and> trace w1 = trace w @ [Popped c x]"
  using assms by (simp add: Channel_pop_def pop_loop_def Let_def)

lemma pop_loop_takes_head:
  assumes "chan_list (channels w c) = x # xs"
  shows "pop_loop c k fr w =
           Inr (w\<lparr>channels := (channels w)(c := (channels w c)\<lparr>chan_list := xs\<rparr>),
                  trace := trace w @ [Popped c x],
                  running := Ctx (k x) fr\<rparr>)"
  using assms by (simp add: pop_loop_def)

lemma pops_run:
  assumes "n \<le> length (chan_list (channels w c))"
      and "running w = Ctx (pops c n acc K) fr"
  shows "\<exists>w1. steps n w = Inr w1
       \<and> running w1 = Ctx (K (acc @ take n (chan_list (channels w c)))) fr
       \<and> chan_list (channels w1 c) = drop n (chan_list (channels w c))"
  using assms
proof (induction n arbitrary: w acc)
  case 0
  then show ?case by simp
next
  case (Suc n)
  from Suc.prems(1) obtain x xs where q: "chan_list (channels w c) = x # xs"
    by (cases "chan_list (channels w c)") auto
  from pop_takes_head [OF q, of "\<lambda>x. pops c n (acc @ [x]) K" fr] obtain w2 where
    p: "Channel_pop c (\<lambda>x. pops c n (acc @ [x]) K) fr w = Inr w2"
    and r: "running w2 = Ctx (pops c n (acc @ [x]) K) fr"
    and l: "chan_list (channels w2 c) = xs"
    by blast
  from Suc.prems(2) p have s: "step w = Inr w2" by (simp add: step_def)
  from Suc.prems(1) q l have "n \<le> length (chan_list (channels w2 c))" by simp
  from Suc.IH [OF this r] obtain w1 where
    t: "steps n w2 = Inr w1"
    and u: "running w1 = Ctx (K ((acc @ [x]) @ take n (chan_list (channels w2 c)))) fr"
    and v: "chan_list (channels w1 c) = drop n (chan_list (channels w2 c))"
    by blast
  from s t have "steps (Suc n) w = Inr w1" by simp
  moreover from u l q have "running w1 = Ctx (K (acc @ take (Suc n) (chan_list (channels w c)))) fr"
    by simp
  moreover from v l q have "chan_list (channels w1 c) = drop (Suc n) (chan_list (channels w c))"
    by simp
  ultimately show ?case by blast
qed

text \<open>
  Claim C4. In five parts.
  \<^item> Whenever \<open>push(v)\<close> returns or hands control to the consumer, \<open>v\<close> has been appended
    at the tail of the queue.
  \<^item> On a queue that is not empty \<open>pop\<close> removes the head and returns it to its caller; so
    does the loop inside \<open>pop\<close>, where a consumer continues when it is resumed.
  \<^item> Caller code that pops \<open>m\<close> times from a queue holding at least \<open>m\<close> values gets, call
    after call, the first \<open>m\<close> values of the queue in their order, and the rest stays
    queued.
  \<^item> Over any run of any length from any state, with any scheduler activity, during
    which channel \<open>c\<close> is not cleared: the queue at the start followed by the values
    pushed to \<open>c\<close> during the run, in the order pushed, is the values the pops on \<open>c\<close>
    returned during the run, in the order of the pops, followed by the queue at the end.
    So the values popped are an initial part of what was queued and pushed, and when the
    queue is empty at both ends they are exactly the values pushed, in the same order.
  \<^item> On an empty queue \<open>pop\<close> hands nothing to its caller: having bound the caller as
    consumer if none was bound, it yields, to test the queue again when it is resumed.
\<close>

theorem channel_fifo:
  "(Channel_push c v ret u = Inr u1 \<longrightarrow>
      chan_list (channels u1 c) = chan_list (channels u c) @ [v])
   \<and> (chan_list (channels p c) = x # xs \<longrightarrow>
        (\<exists>p1. Channel_pop c k fr p = Inr p1
           \<and> running p1 = Ctx (k x) fr
           \<and> chan_list (channels p1 c) = xs
           \<and> trace p1 = trace p @ [Popped c x])
        \<and> pop_loop c k fr p =
             Inr (p\<lparr>channels := (channels p)(c := (channels p c)\<lparr>chan_list := xs\<rparr>),
                    trace := trace p @ [Popped c x],
                    running := Ctx (k x) fr\<rparr>))
   \<and> (m \<le> length (chan_list (channels q c)) \<and> running q = Ctx (pops c m acc K) fr \<longrightarrow>
        (\<exists>q1. steps m q = Inr q1
           \<and> running q1 = Ctx (K (acc @ take m (chan_list (channels q c)))) fr
           \<and> chan_list (channels q1 c) = drop m (chan_list (channels q c))))
   \<and> (steps n w = Inr w1 \<and> \<not> cleared c (since w w1) \<longrightarrow>
        trace w1 = trace w @ since w w1
        \<and> chan_list (channels w c) @ pushed c (since w w1)
            = popped c (since w w1) @ chan_list (channels w1 c)
        \<and> popped c (since w w1)
            = take (length (popped c (since w w1)))
                (chan_list (channels w c) @ pushed c (since w w1))
        \<and> (chan_list (channels w c) = [] \<and> chan_list (channels w1 c) = [] \<longrightarrow>
             popped c (since w w1) = pushed c (since w w1)))
   \<and> (chan_list (channels z c) = [] \<longrightarrow>
        pop_loop c k fr z = yield (Ctx (PopLoop c k) fr) z
        \<and> Channel_pop c k fr z
            = yield (Ctx (PopLoop c k) fr)
                (if chan_taker (channels z c) = 0
                 then z\<lparr>channels :=
                          (channels z)(c := (channels z c)\<lparr>chan_taker := current_routine z\<rparr>)\<rparr>
                 else z))"
proof -
  have 1: "Channel_push c v ret u = Inr u1 \<longrightarrow>
      chan_list (channels u1 c) = chan_list (channels u c) @ [v]"
    using push_appends [of c v ret u u1] by blast
  have 2: "chan_list (channels p c) = x # xs \<longrightarrow>
        (\<exists>p1. Channel_pop c k fr p = Inr p1
           \<and> running p1 = Ctx (k x) fr
           \<and> chan_list (channels p1 c) = xs
           \<and> trace p1 = trace p @ [Popped c x])
        \<and> pop_loop c k fr p =
             Inr (p\<lparr>channels := (channels p)(c := (channels p c)\<lparr>chan_list := xs\<rparr>),
                    trace := trace p @ [Popped c x],
                    running := Ctx (k x) fr\<rparr>)"
    using pop_takes_head [of p c x xs k fr] pop_loop_takes_head [of p c x xs k fr] by blast
  have 3: "m \<le> length (chan_list (channels q c)) \<and> running q = Ctx (pops c m acc K) fr \<longrightarrow>
        (\<exists>q1. steps m q = Inr q1
           \<and> running q1 = Ctx (K (acc @ take m (chan_list (channels q c)))) fr
           \<and> chan_list (channels q1 c) = drop m (chan_list (channels q c)))"
    using pops_run [of m q c acc K fr] by blast
  have 4: "trace w1 = trace w @ since w w1
        \<and> chan_list (channels w c) @ pushed c (since w w1)
            = popped c (since w w1) @ chan_list (channels w1 c)
        \<and> popped c (since w w1)
            = take (length (popped c (since w w1)))
                (chan_list (channels w c) @ pushed c (since w w1))
        \<and> (chan_list (channels w c) = [] \<and> chan_list (channels w1 c) = [] \<longrightarrow>
             popped c (since w w1) = pushed c (since w w1))"
    if r: "steps n w = Inr w1" and nc: "\<not> cleared c (since w w1)"
  proof -
    from steps_fifo [OF r, of c] obtain es where
      t: "trace w1 = trace w @ es"
      and mv: "cleared c es
              \<or> chan_list (channels w c) @ pushed c es = popped c es @ chan_list (channels w1 c)"
      unfolding fifo_move_def by blast
    have s: "since w w1 = es" using t by (rule since_append)
    have t': "trace w1 = trace w @ since w w1" using t s by simp
    from mv nc have a: "chan_list (channels w c) @ pushed c (since w w1)
               = popped c (since w w1) @ chan_list (channels w1 c)"
      unfolding s by simp
    then have b: "popped c (since w w1)
        = take (length (popped c (since w w1)))
            (chan_list (channels w c) @ pushed c (since w w1))"
      by simp
    have d: "chan_list (channels w c) = [] \<and> chan_list (channels w1 c) = [] \<longrightarrow>
              popped c (since w w1) = pushed c (since w w1)"
    proof (intro impI, elim conjE)
      assume x: "chan_list (channels w c) = []" and y: "chan_list (channels w1 c) = []"
      from a have "pushed c (since w w1) = popped c (since w w1)"
        unfolding x y by simp
      then show "popped c (since w w1) = pushed c (since w w1)" by (rule sym)
    qed
    from t' a b d show ?thesis by blast
  qed
  have 5: "chan_list (channels z c) = [] \<longrightarrow>
        pop_loop c k fr z = yield (Ctx (PopLoop c k) fr) z
        \<and> Channel_pop c k fr z
            = yield (Ctx (PopLoop c k) fr)
                (if chan_taker (channels z c) = 0
                 then z\<lparr>channels :=
                          (channels z)(c := (channels z c)\<lparr>chan_taker := current_routine z\<rparr>)\<rparr>
                 else z)"
    by (simp add: pop_loop_def Channel_pop_def Let_def)
  from 1 2 3 4 5 show ?thesis by blast
qed

text \<open>
  In \<open>queued_world\<close> three values are queued at once: \<open>pop\<close> returns 10 and leaves 11 and
  12, three pops return 10, 11, 12 in that order, and the run of \<open>queue_prog\<close> ends with
  exactly these in channel 1. In the run of \<open>fifo_prog\<close> the pushes of the host alternate
  with the pops of a consumer routine that is suspended in between: in \<open>popping_world\<close>
  it pops from the empty queue and is suspended, which gives \<open>parked_world\<close>.
\<close>

theorem channel_fifo_witness:
  "Channel_push 0 10 (Ctx Return None) (boot (Return :: int prog))
     = Inr ((push_back 0 10 (boot Return))\<lparr>running := Ctx Return None\<rparr>)
   \<and> chan_list (channels (push_back 0 10 (boot (Return :: int prog))) 0) = [10]
   \<and> chan_list (channels queued_world 0) = [10, 11, 12]
   \<and> (\<exists>p1. Channel_pop 0 (\<lambda>x. Push 1 x Return) None queued_world = Inr p1
         \<and> running p1 = Ctx (Push 1 10 Return) None
         \<and> chan_list (channels p1 0) = [11, 12])
   \<and> running queued_world = Ctx (pops 0 3 [] (\<lambda>vs. pushes 1 vs Return)) None
   \<and> (\<exists>q1. steps 3 queued_world = Inr q1
         \<and> running q1 = Ctx (pushes 1 [10, 11, 12] Return) None
         \<and> chan_list (channels q1 0) = [])
   \<and> steps 9 (boot queue_prog) = Inr forwarded_world
   \<and> \<not> cleared 0 (since (boot queue_prog) forwarded_world)
   \<and> pushed 0 (since (boot queue_prog) forwarded_world) = [10, 11, 12]
   \<and> popped 0 (since (boot queue_prog) forwarded_world) = [10, 11, 12]
   \<and> chan_list (channels forwarded_world 1) = [10, 11, 12]
   \<and> steps 10 (boot fifo_prog) = Inr drained_world
   \<and> \<not> cleared 0 (since (boot fifo_prog) drained_world)
   \<and> pushed 0 (since (boot fifo_prog) drained_world) = [10, 11]
   \<and> popped 0 (since (boot fifo_prog) drained_world) = [10, 11]
   \<and> steps 3 (boot fifo_prog) = Inr popping_world
   \<and> chan_list (channels popping_world 0) = []
   \<and> Channel_pop 0 (\<lambda>x. Pop 0 (\<lambda>y. Return)) (Some (1, 0)) popping_world = Inr parked_world"
proof -
  have b: "Channel_push 0 10 (Ctx Return None) (boot (Return :: int prog))
     = Inr ((push_back 0 10 (boot Return))\<lparr>running := Ctx Return None\<rparr>)"
    by (simp add: Channel_push_def push_back_def boot_def new_Channel_def Let_def)
  have b0: "chan_list (channels (boot (Return :: int prog)) 0) = []"
    by (simp add: boot_def new_Channel_def)
  have ql: "chan_list (channels queued_world 0) = [10, 11, 12]"
    and qr: "running queued_world = Ctx (pops 0 3 [] (\<lambda>vs. pushes 1 vs Return)) None"
    by (simp_all add: queued_world_def)
  have s9: "since (boot queue_prog) forwarded_world
      = [Pushed 0 10, Pushed 0 11, Pushed 0 12, Popped 0 10, Popped 0 11, Popped 0 12,
         Pushed 1 10, Pushed 1 11, Pushed 1 12]"
    by (simp add: since_def boot_def forwarded_world_def)
  have s10: "since (boot fifo_prog) drained_world
               = [Pushed 0 10, Popped 0 10, Pushed 0 11, Popped 0 11]"
    by (simp add: since_def boot_def drained_world_def)
  have c9: "\<not> cleared 0 (since (boot queue_prog) forwarded_world)"
    unfolding s9 by simp
  have c10: "\<not> cleared 0 (since (boot fifo_prog) drained_world)"
    unfolding s10 by simp
  have p9: "pushed 0 (since (boot queue_prog) forwarded_world) = [10, 11, 12]"
    unfolding s9 by simp
  have p10: "pushed 0 (since (boot fifo_prog) drained_world) = [10, 11]"
    unfolding s10 by simp
  have e9: "chan_list (channels (boot queue_prog) 0) = []
            \<and> chan_list (channels forwarded_world 0) = []"
    by (simp add: boot_def new_Channel_def forwarded_world_def)
  have e10: "chan_list (channels (boot fifo_prog) 0) = []
            \<and> chan_list (channels drained_world 0) = []"
    by (simp add: boot_def new_Channel_def drained_world_def)
  have f1: "chan_list (channels forwarded_world 1) = [10, 11, 12]"
    by (simp add: forwarded_world_def)
  note i = channel_fifo
  from i [where c = 0 and v = 10 and ret = "Ctx Return None"
      and u = "boot (Return :: int prog)"
      and ?u1.0 = "(push_back 0 10 (boot Return))\<lparr>running := Ctx Return None\<rparr>",
      THEN conjunct1] b b0
  have 1: "chan_list (channels (push_back 0 10 (boot (Return :: int prog))) 0) = [10]"
    by simp
  from i [where c = 0 and p = queued_world and x = 10 and xs = "[11, 12]"
      and k = "\<lambda>x. Push 1 x Return" and fr = None, THEN conjunct2, THEN conjunct1] ql
  have 2: "\<exists>p1. Channel_pop 0 (\<lambda>x. Push 1 x Return) None queued_world = Inr p1
         \<and> running p1 = Ctx (Push 1 10 Return) None
         \<and> chan_list (channels p1 0) = [11, 12]"
    by blast
  from i [where c = 0 and q = queued_world and m = 3 and acc = "[]"
      and K = "\<lambda>vs. pushes 1 vs Return" and fr = None,
      THEN conjunct2, THEN conjunct2, THEN conjunct1] ql qr
  have 3: "\<exists>q1. steps 3 queued_world = Inr q1
         \<and> running q1 = Ctx (pushes 1 [10, 11, 12] Return) None
         \<and> chan_list (channels q1 0) = []"
    by simp
  from i [where c = 0 and n = 9 and w = "boot queue_prog" and ?w1.0 = forwarded_world,
      THEN conjunct2, THEN conjunct2, THEN conjunct2, THEN conjunct1]
    forwarded_world_reached c9 e9
  have "popped 0 (since (boot queue_prog) forwarded_world)
          = pushed 0 (since (boot queue_prog) forwarded_world)"
    by blast
  then have 4: "popped 0 (since (boot queue_prog) forwarded_world) = [10, 11, 12]"
    unfolding p9 .
  from i [where c = 0 and n = 10 and w = "boot fifo_prog" and ?w1.0 = drained_world,
      THEN conjunct2, THEN conjunct2, THEN conjunct2, THEN conjunct1]
    drained_world_reached c10 e10
  have "popped 0 (since (boot fifo_prog) drained_world)
          = pushed 0 (since (boot fifo_prog) drained_world)"
    by blast
  then have 5: "popped 0 (since (boot fifo_prog) drained_world) = [10, 11]"
    unfolding p10 .
  have pe: "chan_list (channels popping_world 0) = []"
    by (simp add: popping_world_def new_Channel_def)
  have py: "yield (Ctx (PopLoop 0 (\<lambda>x. Pop 0 (\<lambda>y. Return))) (Some (1, 0)))
              (if chan_taker (channels popping_world 0) = 0
               then popping_world\<lparr>channels :=
                      (channels popping_world)
                        (0 := (channels popping_world 0)
                                \<lparr>chan_taker := current_routine popping_world\<rparr>)\<rparr>
               else popping_world)
            = Inr parked_world"
    by (simp add: popping_world_def parked_world_def run_defs)
  from i [where c = 0 and z = popping_world and k = "\<lambda>x. Pop 0 (\<lambda>y. Return)"
      and fr = "Some (1, 0)",
      THEN conjunct2, THEN conjunct2, THEN conjunct2, THEN conjunct2] pe py
  have 6: "Channel_pop 0 (\<lambda>x. Pop 0 (\<lambda>y. Return)) (Some (1, 0)) popping_world
             = Inr parked_world"
    by simp
  from b ql qr forwarded_world_reached drained_world_reached c9 c10 p9 p10 f1 1 2 3 4 5 6
    popping_world_reached pe
  show ?thesis by blast
qed

subsection \<open>await\<close>

lemma resume_futures:
  assumes "resume rid ret w = Inr (Switched w1)"
  shows "futures w1 = futures w"
  using assms
  by (auto simp: resume_def Let_def split: if_splits sum.splits option.splits)

lemma yield_futures:
  assumes "yield ret w = Inr w1"
  shows "futures w1 = futures w"
  using assms
  by (auto simp: yield_def Let_def split: if_splits sum.splits option.splits)

lemma create_futures:
  assumes "create f w = Inr (rid, w1)"
  shows "futures w1 = futures w"
  using assms
  by (auto simp: create_def put_slot_def Let_def split: list.splits sum.splits option.splits)

lemma destroy_futures:
  assumes "destroy rid w = Inr w1"
  shows "futures w1 = futures w"
  using assms
  by (auto simp: destroy_def put_slot_def Let_def split: sum.splits option.splits)

lemma entry_begin_futures:
  assumes "entry_begin w = Inr w1"
  shows "futures w1 = futures w"
  using assms
  by (auto simp: entry_begin_def Let_def split: sum.splits option.splits)

lemma entry_end_futures:
  assumes "entry_end rid a w = Inr w1"
  shows "futures w1 = futures w"
  using assms
  by (auto simp: entry_end_def split: sum.splits option.splits)

lemma push_futures:
  assumes "Channel_push c v ret w = Inr w1"
  shows "futures w1 = futures w"
  using assms resume_futures [of "chan_taker (channels (push_back c v w) c)" ret "push_back c v w" w1]
  by (auto simp: Channel_push_def push_back_def Let_def split: if_splits sum.splits resumed.splits)

lemma touch_futures:
  assumes "Channel_touch c ret w = Inr w1"
  shows "futures w1 = futures w"
  using assms resume_futures [of "chan_taker (channels w c)" ret w w1]
  by (auto simp: Channel_touch_def Let_def split: if_splits sum.splits resumed.splits)

lemma pop_loop_futures:
  assumes "pop_loop c k fr w = Inr w1"
  shows "futures w1 = futures w"
  using assms yield_futures [of "Ctx (PopLoop c k) fr" w w1]
  by (auto simp: pop_loop_def split: list.splits)

lemma pop_futures:
  assumes "Channel_pop c k fr w = Inr w1"
  shows "futures w1 = futures w"
proof -
  let ?w = "if chan_taker (channels w c) = 0
            then w\<lparr>channels := (channels w)(c := (channels w c)\<lparr>chan_taker := current_routine w\<rparr>)\<rparr>
            else w"
  from assms have "pop_loop c k fr ?w = Inr w1" by (simp add: Channel_pop_def Let_def)
  from pop_loop_futures [OF this] show ?thesis by simp
qed

lemma await_loop_futures:
  assumes "await_loop i k fr w = Inr w1"
  shows "length (futures w1) = length (futures w)
       \<and> (\<forall>j. outcome_of (futures w1 ! j) = outcome_of (futures w ! j))"
  using assms
proof (cases rule: await_loop_cases)
  case (1 w2)
  from wait_for_frame [OF 1(1)] 1(2) show ?thesis by simp
next
  case (2 w2)
  from wait_for_frame [OF 2(1)] yield_futures [OF 2(3)] show ?thesis by simp
next
  case (3 w2)
  from wait_for_frame [OF 3(1)] 3(3) show ?thesis by simp
qed

lemma await_futures:
  assumes "await f x n k fr w = Inr w1"
  shows "length (futures w1) = Suc (length (futures w))
       \<and> outcome_of (futures w1 ! length (futures w)) = f x
       \<and> (\<forall>j < length (futures w). outcome_of (futures w1 ! j) = outcome_of (futures w ! j))"
proof -
  let ?w = "w\<lparr>futures := futures w @ [\<lparr>remaining = n, outcome_of = f x\<rparr>]\<rparr>"
  from assms have "await_loop (length (futures w)) k fr ?w = Inr w1"
    by (simp add: await_def launch_def)
  from await_loop_futures [OF this] show ?thesis by (simp add: nth_append)
qed

lemma exec_futures:
  assumes "exec p fr w = Inr w1"
  shows "(\<forall>j < length (futures w). outcome_of (futures w1 ! j) = outcome_of (futures w ! j))
       \<and> ((\<forall>f x n k. p \<noteq> Await f x n k) \<longrightarrow> length (futures w1) = length (futures w))"
proof (cases p)
  case Return
  then show ?thesis using assms entry_end_futures [of _ _ w w1]
    by (cases fr) auto
next
  case (Create f k)
  then show ?thesis using assms create_futures [of f w]
    by (auto split: sum.splits prod.splits)
next
  case (Destroy rid k)
  then show ?thesis using assms destroy_futures [of rid w]
    by (auto split: sum.splits)
next
  case (Resume rid k)
  then show ?thesis using assms resume_futures [of rid "Ctx (k 0) fr" w w1]
    by (auto split: sum.splits resumed.splits)
next
  case (Yield k)
  then show ?thesis using assms yield_futures [of "Ctx k fr" w w1] by auto
next
  case (Push c v k)
  then show ?thesis using assms push_futures [of c v "Ctx k fr" w w1] by auto
next
  case (Pop c k)
  then show ?thesis using assms pop_futures [of c k fr w w1] by auto
next
  case (PopLoop c k)
  then show ?thesis using assms pop_loop_futures [of c k fr w w1] by auto
next
  case (Touch c k)
  then show ?thesis using assms touch_futures [of c "Ctx k fr" w w1] by auto
next
  case (Await f x n k)
  then show ?thesis using assms await_futures [of f x n k fr w w1] by auto
next
  case (AwaitPoll i k)
  then show ?thesis using assms await_loop_futures [of i k fr w w1] by auto
qed (use assms in \<open>auto simp: Channel_size_def Channel_empty_def\<close>)

lemma step_futures:
  assumes "step v = Inr v1"
  shows "(\<forall>j < length (futures v). outcome_of (futures v1 ! j) = outcome_of (futures v ! j))
       \<and> ((\<forall>f x n k fr. running v \<noteq> Ctx (Await f x n k) fr) \<longrightarrow>
            length (futures v1) = length (futures v))"
proof (cases "running v")
  case Entry
  then show ?thesis using assms entry_begin_futures [of v v1] by (simp add: step_def)
next
  case (Ctx p fr)
  then show ?thesis using assms exec_futures [of p fr v v1] by (simp add: step_def)
qed

lemma step_launch:
  assumes "step v = Inr v1" and "running v = Ctx (Await f x n k) fr"
  shows "length (futures v1) = Suc (length (futures v))
       \<and> outcome_of (futures v1 ! length (futures v)) = f x"
  using assms await_futures [of f x n k fr v v1] by (simp add: step_def)

text \<open>Inside the host the polls follow one another until the future is ready.\<close>

lemma await_poll_host:
  assumes "current (ordinator w) = 0"
      and "running w = Ctx (AwaitPoll i k) fr"
      and "i < length (futures w)"
      and "remaining (futures w ! i) = m"
  shows "steps (Suc m) w =
           Inr (w\<lparr>futures := (futures w)[i := (futures w ! i)\<lparr>remaining := 0\<rparr>],
                  running := Ctx (k (outcome_of (futures w ! i))) fr\<rparr>)"
  using assms
proof (induction m arbitrary: w)
  case 0
  have "(futures w ! i)\<lparr>remaining := 0\<rparr> = futures w ! i"
    using "0.prems"(4) by simp
  then have "(futures w)[i := (futures w ! i)\<lparr>remaining := 0\<rparr>] = futures w"
    by simp
  then show ?case using "0.prems"
    by (simp add: step_def await_loop_def wait_for_def future_get_def)
next
  case (Suc m)
  let ?w = "w\<lparr>futures := (futures w)[i := (futures w ! i)\<lparr>remaining := m\<rparr>],
               running := Ctx (AwaitPoll i k) fr\<rparr>"
  have s: "step w = Inr ?w"
    using Suc.prems
    by (simp add: step_def await_loop_def wait_for_def current_routine_def)
  have "steps (Suc m) ?w =
          Inr (?w\<lparr>futures := (futures ?w)[i := (futures ?w ! i)\<lparr>remaining := 0\<rparr>],
                  running := Ctx (k (outcome_of (futures ?w ! i))) fr\<rparr>)"
    using Suc.prems by (intro Suc.IH) simp_all
  then have "steps (Suc m) ?w =
          Inr (w\<lparr>futures := (futures w)[i := (futures w ! i)\<lparr>remaining := 0\<rparr>],
                  running := Ctx (k (outcome_of (futures w ! i))) fr\<rparr>)"
    using Suc.prems(3) by simp
  with s show ?case by simp
qed

lemma await_host:
  assumes "current (ordinator w) = 0"
      and "running w = Ctx (Await f x n k) fr"
  shows "steps (Suc n) w =
           Inr (w\<lparr>futures := futures w @ [\<lparr>remaining = 0, outcome_of = f x\<rparr>],
                  running := Ctx (k (f x)) fr\<rparr>)"
proof (cases n)
  case 0
  then show ?thesis using assms
    by (simp add: step_def await_def launch_def await_loop_def wait_for_def future_get_def)
next
  case (Suc m)
  let ?i = "length (futures w)"
  let ?w = "w\<lparr>futures := futures w @ [\<lparr>remaining = m, outcome_of = f x\<rparr>],
               running := Ctx (AwaitPoll ?i k) fr\<rparr>"
  have s: "step w = Inr ?w"
    using assms Suc
    by (simp add: step_def await_def launch_def await_loop_def wait_for_def
        current_routine_def)
  have "steps (Suc m) ?w =
          Inr (?w\<lparr>futures := (futures ?w)[?i := (futures ?w ! ?i)\<lparr>remaining := 0\<rparr>],
                  running := Ctx (k (outcome_of (futures ?w ! ?i))) fr\<rparr>)"
    using assms(1) by (intro await_poll_host) simp_all
  then have "steps (Suc m) ?w =
          Inr (w\<lparr>futures := futures w @ [\<lparr>remaining = 0, outcome_of = f x\<rparr>],
                  running := Ctx (k (f x)) fr\<rparr>)"
    by simp
  with s Suc show ?thesis by simp
qed

text \<open>
  Claim C7. \<open>await(f, x)\<close> hands its caller exactly what the one call \<open>f x\<close> produces, a
  value or the exception thrown, and starts that call once.
  \<^item> Called from the host, with \<open>n\<close> polls timing out, \<open>await\<close> is over after \<open>n + 1\<close>
    calls: the caller continues on \<open>f x\<close>, one future has been added, and nothing else
    has changed.
  \<^item> Called when the future is ready at the first poll, \<open>await\<close> returns \<open>f x\<close> at once;
    called inside a routine when it is not, \<open>await\<close> has started the call and yields, to
    poll the same future again when the routine is resumed.
  \<^item> A poll that finds the future ready returns the outcome the future holds to the
    caller; a poll inside a routine that times out yields and polls the same future
    again.
  \<^item> Over any call of any running code the outcome held by a future stays what it is;
    a call of \<open>await\<close> adds one future, holding \<open>f x\<close>, and no other call adds one: the
    polls inside \<open>await\<close> never start the call again.
\<close>

theorem await_returns_outcome:
  "(current (ordinator w) = 0 \<and> running w = Ctx (Await f x n k) fr \<longrightarrow>
      steps (Suc n) w =
        Inr (w\<lparr>futures := futures w @ [\<lparr>remaining = 0, outcome_of = f x\<rparr>],
               running := Ctx (k (f x)) fr\<rparr>))
   \<and> (running u = Ctx (Await f x 0 k) fr \<longrightarrow>
        step u = Inr (u\<lparr>futures := futures u @ [\<lparr>remaining = 0, outcome_of = f x\<rparr>],
                        running := Ctx (k (f x)) fr\<rparr>))
   \<and> (running u = Ctx (Await f x (Suc m) k) fr \<and> current (ordinator u) \<noteq> 0 \<longrightarrow>
        step u = yield (Ctx (AwaitPoll (length (futures u)) k) fr)
                   (u\<lparr>futures := futures u @ [\<lparr>remaining = m, outcome_of = f x\<rparr>]\<rparr>))
   \<and> (running p = Ctx (AwaitPoll i k) fr \<and> i < length (futures p)
        \<and> remaining (futures p ! i) = 0 \<longrightarrow>
        step p = Inr (p\<lparr>running := Ctx (k (outcome_of (futures p ! i))) fr\<rparr>))
   \<and> (running p = Ctx (AwaitPoll i k) fr \<and> i < length (futures p)
        \<and> remaining (futures p ! i) = Suc m \<and> current (ordinator p) \<noteq> 0 \<longrightarrow>
        step p = yield (Ctx (AwaitPoll i k) fr)
                   (p\<lparr>futures := (futures p)[i := (futures p ! i)\<lparr>remaining := m\<rparr>]\<rparr>))
   \<and> (step v = Inr v1 \<and> j < length (futures v) \<longrightarrow>
        outcome_of (futures v1 ! j) = outcome_of (futures v ! j))
   \<and> (step v = Inr v1 \<and> running v = Ctx (Await f x n k) fr \<longrightarrow>
        length (futures v1) = Suc (length (futures v))
        \<and> outcome_of (futures v1 ! length (futures v)) = f x)
   \<and> (step v = Inr v1 \<and> (\<forall>f x n k fr. running v \<noteq> Ctx (Await f x n k) fr) \<longrightarrow>
        length (futures v1) = length (futures v))"
proof -
  have 1: "current (ordinator w) = 0 \<and> running w = Ctx (Await f x n k) fr \<longrightarrow>
      steps (Suc n) w =
        Inr (w\<lparr>futures := futures w @ [\<lparr>remaining = 0, outcome_of = f x\<rparr>],
               running := Ctx (k (f x)) fr\<rparr>)"
    using await_host [of w f x n k fr] by blast
  have 2: "running u = Ctx (Await f x 0 k) fr \<longrightarrow>
        step u = Inr (u\<lparr>futures := futures u @ [\<lparr>remaining = 0, outcome_of = f x\<rparr>],
                        running := Ctx (k (f x)) fr\<rparr>)"
    by (simp add: step_def await_def launch_def await_loop_def wait_for_def future_get_def)
  have 3: "running u = Ctx (Await f x (Suc m) k) fr \<and> current (ordinator u) \<noteq> 0 \<longrightarrow>
        step u = yield (Ctx (AwaitPoll (length (futures u)) k) fr)
                   (u\<lparr>futures := futures u @ [\<lparr>remaining = m, outcome_of = f x\<rparr>]\<rparr>)"
    by (simp add: step_def await_def launch_def await_loop_def wait_for_def
        current_routine_def)
  have 4: "running p = Ctx (AwaitPoll i k) fr \<and> i < length (futures p)
        \<and> remaining (futures p ! i) = 0 \<longrightarrow>
        step p = Inr (p\<lparr>running := Ctx (k (outcome_of (futures p ! i))) fr\<rparr>)"
    by (simp add: step_def await_loop_def wait_for_def future_get_def)
  have 5: "running p = Ctx (AwaitPoll i k) fr \<and> i < length (futures p)
        \<and> remaining (futures p ! i) = Suc m \<and> current (ordinator p) \<noteq> 0 \<longrightarrow>
        step p = yield (Ctx (AwaitPoll i k) fr)
                   (p\<lparr>futures := (futures p)[i := (futures p ! i)\<lparr>remaining := m\<rparr>]\<rparr>)"
    by (simp add: step_def await_loop_def wait_for_def current_routine_def)
  have 6: "step v = Inr v1 \<and> j < length (futures v) \<longrightarrow>
        outcome_of (futures v1 ! j) = outcome_of (futures v ! j)"
    using step_futures [of v v1] by blast
  have 7: "step v = Inr v1 \<and> running v = Ctx (Await f x n k) fr \<longrightarrow>
        length (futures v1) = Suc (length (futures v))
        \<and> outcome_of (futures v1 ! length (futures v)) = f x"
    using step_launch [of v v1 f x n k fr] by blast
  have 8: "step v = Inr v1 \<and> (\<forall>f x n k fr. running v \<noteq> Ctx (Await f x n k) fr) \<longrightarrow>
        length (futures v1) = length (futures v)"
    using step_futures [of v v1] by blast
  from 1 2 3 4 5 6 7 8 show ?thesis by blast
qed

theorem await_returns_outcome_witness:
  "steps 3 (boot (Await add_one 5 2 report))
     = Inr ((boot (Await add_one 5 2 report))
              \<lparr>futures := [\<lparr>remaining = 0, outcome_of = Value 6\<rparr>],
               running := Ctx (Push 0 6 Return) None\<rparr>)
   \<and> step (boot (Await failing 5 0 report))
     = Inr ((boot (Await failing 5 0 report))
              \<lparr>futures := [\<lparr>remaining = 0, outcome_of = Thrown 7\<rparr>],
               running := Ctx (Push 1 7 Return) None\<rparr>)
   \<and> steps 3 (boot await_prog) = Inr entered_world
   \<and> step entered_world = Inr awaiting_world
   \<and> length (futures awaiting_world) = 1
   \<and> outcome_of (futures awaiting_world ! 0) = Value 6
   \<and> step awaiting_world = Inr polling_world
   \<and> length (futures polling_world) = length (futures awaiting_world)
   \<and> outcome_of (futures polling_world ! 0) = outcome_of (futures awaiting_world ! 0)
   \<and> steps 5 (boot await_prog) = Inr polling_world
   \<and> step polling_world
       = yield (Ctx (AwaitPoll 0 report) (Some (1, 0)))
           (polling_world\<lparr>futures := [\<lparr>remaining = 0, outcome_of = Value 6\<rparr>]\<rparr>)
   \<and> steps 7 (boot await_prog) = Inr ready_world
   \<and> step ready_world = Inr (ready_world\<lparr>running := Ctx (Push 0 6 Return) (Some (1, 0))\<rparr>)
   \<and> steps 10 (boot await_prog) = Inr awaited_world
   \<and> futures awaited_world = [\<lparr>remaining = 0, outcome_of = Value 6\<rparr>]
   \<and> chan_list (channels awaited_world 0) = [6]"
proof -
  have b: "current (ordinator (boot (Await add_one 5 2 report))) = 0
         \<and> running (boot (Await add_one 5 2 report)) = Ctx (Await add_one 5 2 report) None
         \<and> futures (boot (Await add_one 5 2 report)) = []"
    by (simp add: boot_def new_Ordinator_def)
  have bf: "running (boot (Await failing 5 0 report)) = Ctx (Await failing 5 0 report) None
         \<and> futures (boot (Await failing 5 0 report)) = []"
    by (simp add: boot_def)
  have a: "add_one 5 = Value 6" and f: "failing 5 = Thrown 7"
    by (simp_all add: add_one_def failing_def)
  have r: "report (Value 6) = Push 0 6 Return" and rf: "report (Thrown 7) = Push 1 7 Return"
    by (simp_all add: report_def)
  have e: "running entered_world = Ctx (Await add_one 5 2 report) (Some (1, 0))
         \<and> current (ordinator entered_world) \<noteq> 0 \<and> futures entered_world = []"
    by (simp add: entered_world_def)
  have y: "yield (Ctx (AwaitPoll 0 report) (Some (1, 0)))
             (entered_world\<lparr>futures := [\<lparr>remaining = 1, outcome_of = Value 6\<rparr>]\<rparr>)
           = Inr awaiting_world"
    by (simp add: entered_world_def awaiting_world_def run_defs)
  have p: "running polling_world = Ctx (AwaitPoll 0 report) (Some (1, 0))
         \<and> 0 < length (futures polling_world)
         \<and> remaining (futures polling_world ! 0) = Suc 0
         \<and> current (ordinator polling_world) \<noteq> 0
         \<and> (futures polling_world)[0 := (futures polling_world ! 0)\<lparr>remaining := 0\<rparr>]
             = [\<lparr>remaining = 0, outcome_of = Value 6\<rparr>]"
    by (simp add: polling_world_def)
  have q: "running ready_world = Ctx (AwaitPoll 0 report) (Some (1, 0))
         \<and> 0 < length (futures ready_world)
         \<and> remaining (futures ready_world ! 0) = 0
         \<and> outcome_of (futures ready_world ! 0) = Value 6"
    by (simp add: ready_world_def)
  have d: "futures awaited_world = [\<lparr>remaining = 0, outcome_of = Value 6\<rparr>]
         \<and> chan_list (channels awaited_world 0) = [6]"
    by (simp add: awaited_world_def)
  note i = await_returns_outcome
  from i [where w = "boot (Await add_one 5 2 report)" and f = add_one and x = 5 and n = 2
      and k = report and fr = None, THEN conjunct1] b a r
  have 1: "steps 3 (boot (Await add_one 5 2 report))
     = Inr ((boot (Await add_one 5 2 report))
              \<lparr>futures := [\<lparr>remaining = 0, outcome_of = Value 6\<rparr>],
               running := Ctx (Push 0 6 Return) None\<rparr>)"
    by (simp add: eval_nat_numeral)
  from i [where u = "boot (Await failing 5 0 report)" and f = failing and x = 5
      and k = report and fr = None, THEN conjunct2, THEN conjunct1] bf f rf
  have 2: "step (boot (Await failing 5 0 report))
     = Inr ((boot (Await failing 5 0 report))
              \<lparr>futures := [\<lparr>remaining = 0, outcome_of = Thrown 7\<rparr>],
               running := Ctx (Push 1 7 Return) None\<rparr>)"
    by simp
  from i [where u = entered_world and f = add_one and x = 5 and m = 1
      and k = report and fr = "Some (1, 0)",
      THEN conjunct2, THEN conjunct2, THEN conjunct1] e a y
  have 3: "step entered_world = Inr awaiting_world"
    by (simp add: eval_nat_numeral)
  from i [where v = entered_world and ?v1.0 = awaiting_world and f = add_one and x = 5
      and n = 2 and k = report and fr = "Some (1, 0)",
      THEN conjunct2, THEN conjunct2, THEN conjunct2, THEN conjunct2, THEN conjunct2,
      THEN conjunct2, THEN conjunct1] 3 e a
  have 4: "length (futures awaiting_world) = 1
         \<and> outcome_of (futures awaiting_world ! 0) = Value 6"
    by simp
  from i [where p = polling_world and i = 0 and m = 0 and k = report and fr = "Some (1, 0)",
      THEN conjunct2, THEN conjunct2, THEN conjunct2, THEN conjunct2, THEN conjunct1] p
  have 5: "step polling_world
       = yield (Ctx (AwaitPoll 0 report) (Some (1, 0)))
           (polling_world\<lparr>futures := [\<lparr>remaining = 0, outcome_of = Value 6\<rparr>]\<rparr>)"
    by simp
  from i [where p = ready_world and i = 0 and k = report and fr = "Some (1, 0)",
      THEN conjunct2, THEN conjunct2, THEN conjunct2, THEN conjunct1] q r
  have 6: "step ready_world = Inr (ready_world\<lparr>running := Ctx (Push 0 6 Return) (Some (1, 0))\<rparr>)"
    by simp
  have g: "step awaiting_world = Inr polling_world"
    by (simp add: awaiting_world_def polling_world_def run_defs)
  have h: "(\<forall>f x n k fr. running awaiting_world \<noteq> Ctx (Await f x n k) fr)
         \<and> 0 < length (futures awaiting_world)"
    by (simp add: awaiting_world_def)
  from i [where v = awaiting_world and ?v1.0 = polling_world and j = 0,
      THEN conjunct2, THEN conjunct2, THEN conjunct2, THEN conjunct2, THEN conjunct2,
      THEN conjunct1] g h
  have 7: "outcome_of (futures polling_world ! 0) = outcome_of (futures awaiting_world ! 0)"
    by blast
  from i [where v = awaiting_world and ?v1.0 = polling_world,
      THEN conjunct2, THEN conjunct2, THEN conjunct2, THEN conjunct2, THEN conjunct2,
      THEN conjunct2, THEN conjunct2] g h
  have 8: "length (futures polling_world) = length (futures awaiting_world)"
    by blast
  from 1 2 3 4 5 6 7 8 g d entered_world_reached polling_world_reached ready_world_reached
    awaited_world_reached
  show ?thesis by blast
qed

end
